theory Spec2Isabelle
  imports Main
begin

section \<open>Python strings\<close>

text \<open>
  Strings are lists of characters with code points below 256.  The helpers below model
  the built-ins of \<^verbatim>\<open>str\<close> that the crawler and the ingestion pipeline call.
\<close>

definition py_isspace :: "char \<Rightarrow> bool" where
  "py_isspace c =
     (let n = (of_char c :: nat)
      in (9 \<le> n \<and> n \<le> 13) \<or> (28 \<le> n \<and> n \<le> 32) \<or> n = 133 \<or> n = 160)"

definition strip :: "string \<Rightarrow> string" where
  "strip s = rev (dropWhile py_isspace (rev (dropWhile py_isspace s)))"

definition is_digit :: "char \<Rightarrow> bool" where
  "is_digit c = (c \<in> set ''0123456789'')"

definition digit_val :: "char \<Rightarrow> nat" where
  "digit_val c = (of_char c :: nat) - 48"

definition digit_char :: "nat \<Rightarrow> char" where
  "digit_char d = ''0123456789'' ! d"

fun split_on :: "char \<Rightarrow> string \<Rightarrow> string list" where
  "split_on c [] = [[]]"
| "split_on c (x # xs) =
     (if x = c then [] # split_on c xs
      else (case split_on c xs of
              [] \<Rightarrow> [[x]]
            | w # ws \<Rightarrow> (x # w) # ws))"

function str_nat :: "nat \<Rightarrow> string" where
  "str_nat n = (if n < 10 then [digit_char n] else str_nat (n div 10) @ [digit_char (n mod 10)])"
  by pat_completeness auto
termination
  by (relation "measure (\<lambda>n. n)") auto

declare str_nat.simps [simp del]

definition str_int :: "int \<Rightarrow> string" where
  "str_int i = (if i < 0 then CHR ''-'' # str_nat (nat (- i)) else str_nat (nat i))"

definition zfill :: "nat \<Rightarrow> string \<Rightarrow> string" where
  "zfill n s = replicate (n - length s) CHR ''0'' @ s"

fun decimal_value :: "nat \<Rightarrow> string \<Rightarrow> nat" where
  "decimal_value acc [] = acc"
| "decimal_value acc (c # cs) =
     (if c = CHR ''_'' then decimal_value acc cs
      else decimal_value (10 * acc + digit_val c) cs)"

fun digits_ok :: "bool \<Rightarrow> string \<Rightarrow> bool" where
  "digits_ok prev_digit [] = prev_digit"
| "digits_ok prev_digit (c # cs) =
     (if is_digit c then digits_ok True cs
      else if c = CHR ''_'' \<and> prev_digit then digits_ok False cs
      else False)"

text \<open>
  \<^verbatim>\<open>int(s)\<close> for a string: surrounding whitespace is dropped, one sign is allowed, and
  the digits may be grouped by single underscores.  \<open>None\<close> is the \<^verbatim>\<open>ValueError\<close>.
\<close>

definition py_int :: "string \<Rightarrow> int option" where
  "py_int s =
     (case strip s of
        [] \<Rightarrow> None
      | c # cs \<Rightarrow>
          (if c = CHR ''-'' then
             (if digits_ok False cs then Some (- int (decimal_value 0 cs)) else None)
           else if c = CHR ''+'' then
             (if digits_ok False cs then Some (int (decimal_value 0 cs)) else None)
           else
             (if digits_ok False (c # cs) then Some (int (decimal_value 0 (c # cs))) else None)))"

section \<open>Dates\<close>

record datetime =
  year :: nat
  month :: nat
  day :: nat
  hour :: nat
  minute :: nat
  second :: nat
  microsecond :: nat

definition is_leap :: "nat \<Rightarrow> bool" where
  "is_leap y = (if y mod 4 = 0 then (if y mod 100 = 0 then y mod 400 = 0 else True) else False)"

definition days_in_month :: "nat \<Rightarrow> nat \<Rightarrow> nat" where
  "days_in_month y m =
     (if m = 2 then (if is_leap y then 29 else 28)
      else if m = 4 \<or> m = 6 \<or> m = 9 \<or> m = 11 then 30 else 31)"

text \<open>One step of \<^verbatim>\<open>dt - timedelta(days=1)\<close>: the time of day is kept.\<close>

definition prev_day :: "datetime \<Rightarrow> datetime" where
  "prev_day dt =
     (if 1 < day dt then dt\<lparr>day := day dt - 1\<rparr>
      else if 1 < month dt then
        dt\<lparr>month := month dt - 1, day := days_in_month (year dt) (month dt - 1)\<rparr>
      else dt\<lparr>year := year dt - 1, month := 12, day := 31\<rparr>)"

fun minus_days :: "datetime \<Rightarrow> nat \<Rightarrow> datetime" where
  "minus_days dt 0 = dt"
| "minus_days dt (Suc n) = minus_days (prev_day dt) n"

text \<open>
  \<^verbatim>\<open>get_date_range\<close> reads the wall clock; the model takes \<open>now\<close> as its argument.
\<close>

definition get_date_range :: "datetime \<Rightarrow> datetime \<times> datetime" where
  "get_date_range now =
     (let end_date = minus_days now 5;
          start_date = minus_days end_date 10
      in (start_date, end_date))"

definition strftime_ymd :: "datetime \<Rightarrow> string" where
  "strftime_ymd d =
     zfill 4 (str_nat (year d)) @ ''-'' @ zfill 2 (str_nat (month d)) @ ''-''
       @ zfill 2 (str_nat (day d))"

definition strftime_compact :: "datetime \<Rightarrow> string" where
  "strftime_compact d =
     zfill 4 (str_nat (year d)) @ zfill 2 (str_nat (month d)) @ zfill 2 (str_nat (day d))"

definition nonzero_digit :: "char \<Rightarrow> bool" where
  "nonzero_digit c = (c \<in> set ''123456789'')"

text \<open>
  The month and day directives of \<^verbatim>\<open>strptime\<close>: each returns the value read and the
  rest of the input, trying the alternatives of the directive in their order.
\<close>

fun match_month :: "string \<Rightarrow> (nat \<times> string) option" where
  "match_month (a # b # r) =
     (if a = CHR ''1'' \<and> b \<in> set ''012'' then Some (10 + digit_val b, r)
      else if a = CHR ''0'' \<and> nonzero_digit b then Some (digit_val b, r)
      else if nonzero_digit a then Some (digit_val a, b # r)
      else None)"
| "match_month [a] = (if nonzero_digit a then Some (digit_val a, []) else None)"
| "match_month [] = None"

fun match_day :: "string \<Rightarrow> (nat \<times> string) option" where
  "match_day (a # b # r) =
     (if a = CHR ''3'' \<and> b \<in> set ''01'' then Some (30 + digit_val b, r)
      else if a \<in> set ''12'' \<and> is_digit b then Some (10 * digit_val a + digit_val b, r)
      else if a = CHR ''0'' \<and> nonzero_digit b then Some (digit_val b, r)
      else if nonzero_digit a then Some (digit_val a, b # r)
      else if a = CHR '' '' \<and> nonzero_digit b then Some (digit_val b, r)
      else None)"
| "match_day [a] = (if nonzero_digit a then Some (digit_val a, []) else None)"
| "match_day [] = None"

text \<open>
  \<^verbatim>\<open>datetime.strptime(s, "%Y-%m-%d")\<close>: four digits, a month, a day, nothing left
  over, and a date that exists.  The result is that date at midnight; \<open>None\<close> is the
  \<^verbatim>\<open>ValueError\<close>.
\<close>

definition strptime_ymd :: "string \<Rightarrow> datetime option" where
  "strptime_ymd s =
     (case s of
        y1 # y2 # y3 # y4 # sep1 # rest \<Rightarrow>
          (if is_digit y1 \<and> is_digit y2 \<and> is_digit y3 \<and> is_digit y4 \<and> sep1 = CHR ''-'' then
             (case match_month rest of
                None \<Rightarrow> None
              | Some (m, rest1) \<Rightarrow>
                  (case rest1 of
                     [] \<Rightarrow> None
                   | sep2 # rest2 \<Rightarrow>
                       (if sep2 = CHR ''-'' then
                          (case match_day rest2 of
                             None \<Rightarrow> None
                           | Some (d, rest3) \<Rightarrow>
                               (let y = decimal_value 0 [y1, y2, y3, y4]
                                in if rest3 = [] \<and> 1 \<le> y \<and> d \<le> days_in_month y m then
                                     Some \<lparr>year = y, month = m, day = d, hour = 0, minute = 0,
                                            second = 0, microsecond = 0\<rparr>
                                   else None))
                        else None)))
           else None)
      | _ \<Rightarrow> None)"

section \<open>The crawler of getlinks_final.py\<close>

definition no_of_results :: nat where "no_of_results = 100"
definition PAGE_LOAD_DELAY :: nat where "PAGE_LOAD_DELAY = 15"
definition BETWEEN_PAGES_DELAY :: nat where "BETWEEN_PAGES_DELAY = 10"
definition MAX_RETRIES :: nat where "MAX_RETRIES = 3"

datatype error = ValueError | WebDriverException | UnboundLocalError

text \<open>
  What a run does to the outside, in order.  \<open>Fetched p r\<close> is one \<^verbatim>\<open>driver.get\<close> of
  page \<open>p\<close> with the page source it gave (\<open>None\<close> when it raised); \<open>Appended p ls\<close> is the
  lines that \<^verbatim>\<open>save_new_patents\<close> wrote for page \<open>p\<close>; \<open>Checkpointed p\<close> is the write of
  \<^verbatim>\<open>save_scraping_state\<close> for page \<open>p\<close>.
\<close>

datatype event =
    SessionCreated
  | Fetched int "string option"
  | Slept nat
  | Appended int "string list"
  | Checkpointed int
  | SessionQuit

text \<open>
  The files and the process state of a run.  \<open>patents_file\<close> is patent_urls.txt as its
  lines (an absent file reads as no lines), \<open>state_file\<close> is the content of
  recent_scraping_state.txt (\<open>None\<close> when the file is absent), \<open>gets\<close> counts the calls
  of \<^verbatim>\<open>driver.get\<close> made so far.
\<close>

record crawl =
  patents_file :: "string list"
  state_file :: "string option"
  gets :: nat
  trace :: "event list"
  existing_patents :: "string set"
  all_patent_links :: "string list"

text \<open>The web: what the \<open>n\<close>-th \<^verbatim>\<open>driver.get\<close> of a URL gives, \<open>None\<close> when it raises.\<close>

type_synonym web = "nat \<Rightarrow> string \<Rightarrow> string option"

definition load_existing_patents :: "crawl \<Rightarrow> string set" where
  "load_existing_patents w = set (map strip (patents_file w))"

definition save_new_patents :: "int \<Rightarrow> string list \<Rightarrow> string set \<Rightarrow> crawl \<Rightarrow> crawl" where
  "save_new_patents page new_patents existing w =
     (let written = filter (\<lambda>patent. patent \<notin> existing) new_patents
      in w\<lparr>patents_file := patents_file w @ written,
           trace := trace w @ [Appended page written]\<rparr>)"

definition construct_url :: "int \<Rightarrow> datetime \<Rightarrow> datetime \<Rightarrow> string" where
  "construct_url page_num start_date end_date =
     ''https://patents.google.com/?country=US&before=publication:''
       @ strftime_compact end_date @ ''&after=publication:'' @ strftime_compact start_date
       @ ''&language=ENGLISH&type=PATENT&num='' @ str_nat no_of_results
       @ ''&dups=language&page='' @ str_int page_num"

definition save_scraping_state :: "datetime \<Rightarrow> int \<Rightarrow> crawl \<Rightarrow> crawl" where
  "save_scraping_state date page_num w =
     w\<lparr>state_file := Some (strftime_ymd date @ '','' @ str_int page_num),
       trace := trace w @ [Checkpointed page_num]\<rparr>"

definition load_scraping_state :: "string option \<Rightarrow> error + (datetime option \<times> int)" where
  "load_scraping_state f =
     (case f of
        None \<Rightarrow> Inr (None, 0)
      | Some content \<Rightarrow>
          (case split_on CHR '','' (strip content) of
             [date_str, page_num] \<Rightarrow>
               (case strptime_ymd date_str of
                  None \<Rightarrow> Inl ValueError
                | Some d \<Rightarrow>
                    (case py_int page_num of
                       None \<Rightarrow> Inl ValueError
                     | Some p \<Rightarrow> Inr (Some d, p)))
           | _ \<Rightarrow> Inl ValueError))"

text \<open>\<^verbatim>\<open>re.findall(r"US\d{1,11}", html)\<close>: leftmost matches, greedy, not overlapping.\<close>

definition match_US :: "string \<Rightarrow> string option" where
  "match_US s =
     (case s of
        u # s' # rest \<Rightarrow>
          (let ds = take 11 (takeWhile is_digit rest)
           in if u = CHR ''U'' \<and> s' = CHR ''S'' \<and> ds \<noteq> [] then Some (''US'' @ ds) else None)
      | _ \<Rightarrow> None)"

fun findall_patents :: "string \<Rightarrow> string list" where
  "findall_patents [] = []"
| "findall_patents (c # cs) =
     (case match_US (c # cs) of
        Some m \<Rightarrow> m # findall_patents (drop (length m - 1) cs)
      | None \<Rightarrow> findall_patents cs)"

text \<open>\<^verbatim>\<open>list(dict.fromkeys(xs))\<close>: the first occurrence of each element, in order.\<close>

definition fromkeys_from :: "'a list \<Rightarrow> 'a list \<Rightarrow> 'a list" where
  "fromkeys_from acc xs = foldl (\<lambda>d x. if x \<in> set d then d else d @ [x]) acc xs"

definition dict_fromkeys :: "'a list \<Rightarrow> 'a list" where
  "dict_fromkeys xs = fromkeys_from [] xs"

definition patent_link :: "string \<Rightarrow> string" where
  "patent_link patent_number = ''https://patents.google.com/patent/'' @ patent_number"

text \<open>
  The retry loop of one page (lines 109 to 126).  A failed attempt counts; the third
  failure is raised again, the earlier ones sleep and try the same URL.
\<close>

function fetch_with_retry ::
  "web \<Rightarrow> int \<Rightarrow> string \<Rightarrow> nat \<Rightarrow> crawl \<Rightarrow> (error + string list) \<times> crawl" where
  "fetch_with_retry web page url retry_count w =
     (if retry_count < MAX_RETRIES then
        (case web (gets w) url of
           Some html_content \<Rightarrow>
             (Inr (findall_patents html_content),
              w\<lparr>gets := gets w + 1,
                trace := trace w @ [Fetched page (Some html_content), Slept PAGE_LOAD_DELAY]\<rparr>)
         | None \<Rightarrow>
             (let w1 = w\<lparr>gets := gets w + 1, trace := trace w @ [Fetched page None]\<rparr>
              in if retry_count + 1 = MAX_RETRIES then (Inl WebDriverException, w1)
                 else fetch_with_retry web page url (retry_count + 1)
                        (w1\<lparr>trace := trace w1 @ [Slept PAGE_LOAD_DELAY]\<rparr>)))
      else (Inl UnboundLocalError, w))"
  by pat_completeness auto
termination
  by (relation "measure (\<lambda>(web, page, url, retry_count, w). MAX_RETRIES - retry_count)") auto

datatype outcome = WindowDone | Raised error | OutOfFuel

text \<open>
  What the loop does with a page that has results (lines 133 to 160): the links are
  appended to the file, then the state is saved, then the loop waits.
\<close>

definition process_page :: "datetime \<Rightarrow> int \<Rightarrow> string list \<Rightarrow> crawl \<Rightarrow> crawl" where
  "process_page start_date page_num found w1 =
     (let patent_numbers = dict_fromkeys found;
          patent_links = map patent_link patent_numbers;
          new_patents = filter (\<lambda>link. link \<notin> existing_patents w1) patent_links;
          w2 = save_new_patents page_num new_patents (existing_patents w1) w1;
          w3 = w2\<lparr>existing_patents := existing_patents w2 \<union> set new_patents,
                   all_patent_links := all_patent_links w2 @ new_patents\<rparr>;
          w4 = save_scraping_state start_date page_num w3
      in w4\<lparr>trace := trace w4 @ [Slept BETWEEN_PAGES_DELAY]\<rparr>)"

text \<open>
  The page loop (lines 103 to 160).  It has no bound of its own, so the model counts the
  pages it may still process; \<open>OutOfFuel\<close> is a run that is still going.
\<close>

fun page_loop :: "web \<Rightarrow> datetime \<Rightarrow> datetime \<Rightarrow> nat \<Rightarrow> int \<Rightarrow> crawl \<Rightarrow> outcome \<times> crawl" where
  "page_loop web start_date end_date 0 page_num w = (OutOfFuel, w)"
| "page_loop web start_date end_date (Suc fuel) page_num w =
     (let current_url = construct_url page_num start_date end_date
      in case fetch_with_retry web page_num current_url 0 w of
           (Inl e, w1) \<Rightarrow> (Raised e, w1)
         | (Inr found, w1) \<Rightarrow>
             (if found = [] then (WindowDone, w1)
              else page_loop web start_date end_date fuel (page_num + 1)
                     (process_page start_date page_num found w1)))"

datatype run_result = Returned "string list" | Uncaught error | StillRunning

text \<open>
  \<^verbatim>\<open>getLinks\<close>.  The state is loaded before the \<^verbatim>\<open>try\<close>, so its exception leaves the
  function; what the page loop raises is caught, and the \<^verbatim>\<open>finally\<close> quits the session
  and returns the links collected.
\<close>

definition getLinks :: "web \<Rightarrow> datetime \<Rightarrow> nat \<Rightarrow> crawl \<Rightarrow> run_result \<times> crawl" where
  "getLinks web now fuel w0 =
     (let (start_date, end_date) = get_date_range now;
          w1 = w0\<lparr>trace := trace w0 @ [SessionCreated], all_patent_links := []\<rparr>;
          w2 = w1\<lparr>existing_patents := load_existing_patents w1\<rparr>
      in case load_scraping_state (state_file w2) of
           Inl e \<Rightarrow> (Uncaught e, w2)
         | Inr (last_date, loaded_page) \<Rightarrow>
             (let page_num = (if last_date = Some start_date then loaded_page else 0)
              in case page_loop web start_date end_date fuel page_num w2 of
                   (OutOfFuel, w3) \<Rightarrow> (StillRunning, w3)
                 | (_, w3) \<Rightarrow>
                     (Returned (all_patent_links w3), w3\<lparr>trace := trace w3 @ [SessionQuit]\<rparr>)))"

section \<open>Observations on a run\<close>

text \<open>
  The events of one page: \<open>k\<close> failed attempts, each followed by the fixed delay, and
  then the attempt that gave a page source.
\<close>

definition attempts :: "int \<Rightarrow> nat \<Rightarrow> string \<Rightarrow> event list" where
  "attempts page k h =
     concat (replicate k [Fetched page None, Slept PAGE_LOAD_DELAY])
       @ [Fetched page (Some h), Slept PAGE_LOAD_DELAY]"

definition failed_attempts :: "int \<Rightarrow> event list" where
  "failed_attempts page =
     [Fetched page None, Slept PAGE_LOAD_DELAY, Fetched page None, Slept PAGE_LOAD_DELAY,
      Fetched page None]"

text \<open>The event sequences that the page loop can add when it starts at page \<open>p\<close>.\<close>

inductive run_shape :: "int \<Rightarrow> event list \<Rightarrow> bool" where
  shape_fuel: "run_shape p []"
| shape_failed: "run_shape p (failed_attempts p)"
| shape_done: "k \<le> 2 \<Longrightarrow> findall_patents h = [] \<Longrightarrow> run_shape p (attempts p k h)"
| shape_page: "k \<le> 2 \<Longrightarrow> findall_patents h \<noteq> [] \<Longrightarrow> run_shape (p + 1) rest \<Longrightarrow>
     run_shape p
       (attempts p k h @ [Appended p written, Checkpointed p, Slept BETWEEN_PAGES_DELAY] @ rest)"

text \<open>
  A content of the checkpoint file that \<^verbatim>\<open>load_scraping_state\<close> can read: a date, one
  comma, an integer.
\<close>

definition is_state_line :: "string \<Rightarrow> bool" where
  "is_state_line content =
     (case split_on CHR '','' (strip content) of
        [date_str, page_num] \<Rightarrow> strptime_ymd date_str \<noteq> None \<and> py_int page_num \<noteq> None
      | _ \<Rightarrow> False)"

definition new_events :: "crawl \<Rightarrow> crawl \<Rightarrow> event list" where
  "new_events w w' = drop (length (trace w)) (trace w')"

fun fetched_pages :: "event list \<Rightarrow> int list" where
  "fetched_pages [] = []"
| "fetched_pages (Fetched p r # es) = p # fetched_pages es"
| "fetched_pages (e # es) = fetched_pages es"

fun checkpoints :: "event list \<Rightarrow> int list" where
  "checkpoints [] = []"
| "checkpoints (Checkpointed p # es) = p # checkpoints es"
| "checkpoints (e # es) = checkpoints es"

fun discovered :: "event list \<Rightarrow> string list" where
  "discovered [] = []"
| "discovered (Fetched p (Some h) # es) = findall_patents h @ discovered es"
| "discovered (e # es) = discovered es"

fun no_fetch_after_empty :: "event list \<Rightarrow> bool" where
  "no_fetch_after_empty [] = True"
| "no_fetch_after_empty (Fetched p (Some h) # es) =
     (if findall_patents h = [] then fetched_pages es = [] else no_fetch_after_empty es)"
| "no_fetch_after_empty (e # es) = no_fetch_after_empty es"

fun ckpt_after_append :: "event list \<Rightarrow> bool" where
  "ckpt_after_append [] = True"
| "ckpt_after_append (Appended p ls # Checkpointed q # es) = (p = q \<and> ckpt_after_append es)"
| "ckpt_after_append (Checkpointed q # es) = False"
| "ckpt_after_append (e # es) = ckpt_after_append es"


section \<open>Concrete runs\<close>

text \<open>
  A run at midnight of 16 January 2024, whose window starts on 1 January, an empty set of
  files, and a web whose first two answers have results and whose third has none.
\<close>

definition now_example :: datetime where
  "now_example = \<lparr>year = 2024, month = 1, day = 16, hour = 0, minute = 0, second = 0,
                   microsecond = 0\<rparr>"

definition start_example :: datetime where
  "start_example = \<lparr>year = 2024, month = 1, day = 1, hour = 0, minute = 0, second = 0,
                     microsecond = 0\<rparr>"

definition end_example :: datetime where
  "end_example = \<lparr>year = 2024, month = 1, day = 11, hour = 0, minute = 0, second = 0,
                   microsecond = 0\<rparr>"

text \<open>
  The same day at nine in the morning: \<^verbatim>\<open>get_date_range\<close> subtracts whole days, so the
  window keeps the time of day of the clock.
\<close>

definition now_morning :: datetime where
  "now_morning = \<lparr>year = 2024, month = 1, day = 16, hour = 9, minute = 0, second = 0,
                   microsecond = 0\<rparr>"

definition start_morning :: datetime where
  "start_morning = \<lparr>year = 2024, month = 1, day = 1, hour = 9, minute = 0, second = 0,
                     microsecond = 0\<rparr>"

definition end_morning :: datetime where
  "end_morning = \<lparr>year = 2024, month = 1, day = 11, hour = 9, minute = 0, second = 0,
                   microsecond = 0\<rparr>"

definition fresh :: crawl where
  "fresh = \<lparr>patents_file = [], state_file = None, gets = 0, trace = [],
             existing_patents = {}, all_patent_links = []\<rparr>"

definition web_two_pages :: web where
  "web_two_pages n url =
     (if n = 0 then Some ''US1 US1 US2''
      else if n = 1 then Some ''US3''
      else if n = 2 then Some ''no results''
      else Some ''US9'')"

definition after_page0 :: crawl where
  "after_page0 =
     \<lparr>patents_file = [''https://patents.google.com/patent/US1'',
                       ''https://patents.google.com/patent/US2''],
      state_file = Some ''2024-01-01,0'', gets = 1,
      trace = [SessionCreated, Fetched 0 (Some ''US1 US1 US2''), Slept 15,
               Appended 0 [''https://patents.google.com/patent/US1'',
                           ''https://patents.google.com/patent/US2''],
               Checkpointed 0, Slept 10],
      existing_patents = {''https://patents.google.com/patent/US1'',
                          ''https://patents.google.com/patent/US2''},
      all_patent_links = [''https://patents.google.com/patent/US1'',
                          ''https://patents.google.com/patent/US2'']\<rparr>"

definition after_page1 :: crawl where
  "after_page1 =
     \<lparr>patents_file = [''https://patents.google.com/patent/US1'',
                       ''https://patents.google.com/patent/US2'',
                       ''https://patents.google.com/patent/US3''],
      state_file = Some ''2024-01-01,1'', gets = 2,
      trace = [SessionCreated, Fetched 0 (Some ''US1 US1 US2''), Slept 15,
               Appended 0 [''https://patents.google.com/patent/US1'',
                           ''https://patents.google.com/patent/US2''],
               Checkpointed 0, Slept 10,
               Fetched 1 (Some ''US3''), Slept 15,
               Appended 1 [''https://patents.google.com/patent/US3''],
               Checkpointed 1, Slept 10],
      existing_patents = {''https://patents.google.com/patent/US1'',
                          ''https://patents.google.com/patent/US2'',
                          ''https://patents.google.com/patent/US3''},
      all_patent_links = [''https://patents.google.com/patent/US1'',
                          ''https://patents.google.com/patent/US2'',
                          ''https://patents.google.com/patent/US3'']\<rparr>"

definition after_window :: crawl where
  "after_window =
     after_page1\<lparr>gets := 3,
       trace := trace after_page1 @ [Fetched 2 (Some ''no results''), Slept 15, SessionQuit]\<rparr>"

text \<open>The pages that a run fetches, in order.\<close>

definition run_pages :: "web \<Rightarrow> datetime \<Rightarrow> nat \<Rightarrow> crawl \<Rightarrow> int list" where
  "run_pages web now fuel w0 = fetched_pages (new_events w0 (snd (getLinks web now fuel w0)))"

text \<open>A web that fails three times and would answer from then on.\<close>

definition web_down :: web where
  "web_down n url = (if n < 3 then None else Some ''US1'')"

text \<open>Runs of the crawler one after the other, each a new process on the files left by the last.\<close>

fun crawl_runs :: "(web \<times> datetime \<times> nat) list \<Rightarrow> crawl \<Rightarrow> crawl" where
  "crawl_runs [] w = w"
| "crawl_runs ((web, now, fuel) # rs) w = crawl_runs rs (snd (getLinks web now fuel w))"

text \<open>A link file as the crawler leaves it: no line twice, no line with space around it.\<close>

definition link_log_ok :: "string list \<Rightarrow> bool" where
  "link_log_ok f = (distinct f \<and> list_all (\<lambda>l. strip l = l) f)"

definition web_again :: web where
  "web_again n url = Some ''US3 US4''"

definition restarted :: crawl where
  "restarted =
     after_window\<lparr>trace := trace after_window @ [SessionCreated], all_patent_links := []\<rparr>"

definition after_again :: crawl where
  "after_again =
     restarted\<lparr>patents_file := [''https://patents.google.com/patent/US1'',
                                ''https://patents.google.com/patent/US2'',
                                ''https://patents.google.com/patent/US3'',
                                ''https://patents.google.com/patent/US4''],
       gets := 4,
       trace := trace restarted @ [Fetched 1 (Some ''US3 US4''), Slept 15,
                  Appended 1 [''https://patents.google.com/patent/US4''],
                  Checkpointed 1, Slept 10],
       existing_patents := {''https://patents.google.com/patent/US1'',
                            ''https://patents.google.com/patent/US2'',
                            ''https://patents.google.com/patent/US3'',
                            ''https://patents.google.com/patent/US4''},
       all_patent_links := [''https://patents.google.com/patent/US4'']\<rparr>"

section \<open>Records as Python dictionaries\<close>

datatype pyval = PStr string | PNone | PList "string list"

text \<open>A dictionary with string keys, in insertion order.\<close>

type_synonym pydict = "(string \<times> pyval) list"

definition dict_get :: "pydict \<Rightarrow> string \<Rightarrow> pyval \<Rightarrow> pyval" where
  "dict_get d k dflt = (case map_of d k of Some v \<Rightarrow> v | None \<Rightarrow> dflt)"

fun dict_set :: "pydict \<Rightarrow> string \<Rightarrow> pyval \<Rightarrow> pydict" where
  "dict_set [] k v = [(k, v)]"
| "dict_set ((k', v') # d) k v = (if k' = k then (k, v) # d else (k', v') # dict_set d k v)"

definition dict_pop :: "pydict \<Rightarrow> string \<Rightarrow> pydict" where
  "dict_pop d k = filter (\<lambda>kv. fst kv \<noteq> k) d"

section \<open>Extraction (working.py)\<close>

text \<open>
  What BeautifulSoup and html2text give for a rendered page: the text of each located
  element when it is found, the converted claims section when it is found, and the
  converted page.
\<close>

record page =
  claims_section :: "string option"
  abstract_section :: "string option"
  inventor_dd :: "string option"
  assigneeCurrent_dd :: "string option"
  assigneeOriginal_dd :: "string option"
  filingDate_time :: "string option"
  title_span :: "string option"
  page_text :: string

definition is_linebreak :: "char \<Rightarrow> bool" where
  "is_linebreak c =
     (let n = (of_char c :: nat) in (10 \<le> n \<and> n \<le> 13) \<or> (28 \<le> n \<and> n \<le> 30) \<or> n = 133)"

fun splitlines_from :: "string \<Rightarrow> string \<Rightarrow> string list" where
  "splitlines_from cur [] = (if cur = [] then [] else [rev cur])"
| "splitlines_from cur (c # cs) =
     (if is_linebreak c then
        rev cur # splitlines_from []
          (if c = CHR 0x0D \<and> take 1 cs = [CHR 0x0A] then drop 1 cs else cs)
      else splitlines_from (c # cur) cs)"

definition splitlines :: "string \<Rightarrow> string list" where
  "splitlines s = splitlines_from [] s"

fun join_lines :: "string list \<Rightarrow> string" where
  "join_lines [] = []"
| "join_lines [l] = l"
| "join_lines (l # ls) = l @ CHR 0x0A # join_lines ls"

text \<open>\<^verbatim>\<open>'\n'.join(line.strip() for line in text.splitlines() if line.strip())\<close>\<close>

definition strip_lines :: "string \<Rightarrow> string" where
  "strip_lines t = join_lines (filter (\<lambda>l. l \<noteq> []) (map strip (splitlines t)))"

definition text_or_na :: "string option \<Rightarrow> pyval" where
  "text_or_na el = (case el of Some t \<Rightarrow> PStr (strip t) | None \<Rightarrow> PStr ''N/A'')"

text \<open>
  \<^verbatim>\<open>clean_html_content\<close>.  \<open>rendered\<close> is what the browser session gave for the URL,
  \<open>None\<close> when creating the session, loading the page or reading its source raised.
\<close>

definition clean_html_content :: "page option \<Rightarrow> pydict option" where
  "clean_html_content rendered =
     (case rendered of
        None \<Rightarrow> None
      | Some soup \<Rightarrow>
          (let full_text = strip_lines (page_text soup);
               claims_text =
                 (case claims_section soup of
                    None \<Rightarrow> PNone
                  | Some c \<Rightarrow> (if c \<noteq> [] then PStr (strip_lines c) else PStr c))
           in Some
             [(''patent_title'', text_or_na (title_span soup)),
              (''abstract'', text_or_na (abstract_section soup)),
              (''inventor_name'', text_or_na (inventor_dd soup)),
              (''assignee_name'',
                 (case assigneeCurrent_dd soup of
                    Some t \<Rightarrow> PStr (strip t)
                  | None \<Rightarrow>
                      (case assigneeOriginal_dd soup of
                         Some t \<Rightarrow> PStr (strip t)
                       | None \<Rightarrow> PStr ''N/A''))),
              (''filing_date'', text_or_na (filingDate_time soup)),
              (''claims_text'', claims_text),
              (''patent_text'', PStr full_text)]))"

definition is_AZ09 :: "char \<Rightarrow> bool" where
  "is_AZ09 c = (c \<in> set ''ABCDEFGHIJKLMNOPQRSTUVWXYZ0123456789'')"

text \<open>\<^verbatim>\<open>re.search(r"/patent/([A-Z0-9]+)", url)\<close>, its group 1.\<close>

fun search_patent :: "string \<Rightarrow> string option" where
  "search_patent [] = None"
| "search_patent (c # cs) =
     (if take 8 (c # cs) = ''/patent/'' \<and> takeWhile is_AZ09 (drop 8 (c # cs)) \<noteq> []
      then Some (takeWhile is_AZ09 (drop 8 (c # cs)))
      else search_patent cs)"

text \<open>\<^verbatim>\<open>re.search(r"/patent/([^/]+)/", url)\<close>, its group 1.\<close>

fun search_patent_slash :: "string \<Rightarrow> string option" where
  "search_patent_slash [] = None"
| "search_patent_slash (c # cs) =
     (let run = takeWhile (\<lambda>x. x \<noteq> CHR ''/'') (drop 8 (c # cs))
      in if take 8 (c # cs) = ''/patent/'' \<and> run \<noteq> []
            \<and> take 1 (drop (8 + length run) (c # cs)) = ''/''
         then Some run
         else search_patent_slash cs)"

definition extract_patent_info_with_llm :: "page option \<Rightarrow> string \<Rightarrow> pydict option" where
  "extract_patent_info_with_llm rendered url =
     (case clean_html_content rendered of
        None \<Rightarrow> None
      | Some patent_data \<Rightarrow>
          (let info1 = dict_set patent_data ''patent_url'' (PStr url);
               info2 = dict_set info1 ''publication_number''
                         (PStr (case search_patent_slash url of Some m \<Rightarrow> m | None \<Rightarrow> ''N/A''));
               info3 = dict_set info2 ''inventions''
                         (case dict_get patent_data ''claims_text'' PNone of
                            PStr s \<Rightarrow> (if s \<noteq> [] then PList [s] else PList [])
                          | _ \<Rightarrow> PList [])
           in Some (dict_pop info3 ''claims_text'')))"

section \<open>The content store (ipfs_handler.py)\<close>

datatype http_result = Ok200 | NotOk | ConnError

datatype call =
    Extract string
  | LocalWrite string nat pydict
  | Embed string
  | IndexAdd string
  | IpfsAdd pydict
  | IpfsPin string
  | IpfsCat string
  | MfsMkdir
  | MfsRm string
  | MfsCp string string
  | MfsStat string
  | MfsLs
  | Pause nat

text \<open>
  The services around the pipeline: the rendered page of a URL, the answer of the
  \<open>n\<close>-th request to the IPFS API (status 200, another status, or an exception of
  \<^verbatim>\<open>requests.post\<close>), the address that IPFS gives a document serialized with
  \<^verbatim>\<open>json.dumps(_, indent=2)\<close>, \<^verbatim>\<open>json.dumps\<close>, whether embedding or indexing a text
  raises, and the identifiers that \<^verbatim>\<open>uuid4\<close> gives.
\<close>

record env =
  render :: "string \<Rightarrow> page option"
  http :: "nat \<Rightarrow> http_result"
  cid :: "pydict \<Rightarrow> string"
  dumps :: "pydict \<Rightarrow> string"
  index_fails :: "string \<Rightarrow> bool"
  uuid4 :: "nat \<Rightarrow> string"

text \<open>
  The files under patent_json (path to indentation and document), the blocks, pins and
  MFS of the IPFS node, the vector collection, the requests sent so far, the calls made
  in order, and the two lists of \<^verbatim>\<open>main\<close>.
\<close>

record ingest =
  json_files :: "string \<rightharpoonup> nat \<times> pydict"
  blocks :: "string \<rightharpoonup> pydict"
  pinned :: "string set"
  mfs :: "string \<rightharpoonup> string"
  chroma :: "(string \<times> string) list"
  requests :: nat
  calls :: "call list"
  processed_patents :: "string list"
  skipped_patents :: "string list"

definition send :: "call \<Rightarrow> ingest \<Rightarrow> ingest" where
  "send c st = st\<lparr>requests := requests st + 1, calls := calls st @ [c]\<rparr>"

definition format_patent :: "pydict \<Rightarrow> string \<Rightarrow> pydict" where
  "format_patent patent_data patent_number =
     [(''patent_title'', dict_get patent_data ''patent_title'' (PStr [])),
      (''abstract'', dict_get patent_data ''abstract'' (PStr [])),
      (''inventions'', dict_get patent_data ''inventions'' (PList [])),
      (''publication_number'', PStr patent_number),
      (''filing_date'', dict_get patent_data ''filing_date'' (PStr [])),
      (''assignee_name'', dict_get patent_data ''assignee_name'' (PStr [])),
      (''inventor_name'', dict_get patent_data ''inventor_name'' (PStr [])),
      (''patent_url'', dict_get patent_data ''patent_url'' (PStr [])),
      (''patent_text'', dict_get patent_data ''patent_text'' (PStr []))]"

definition local_path :: "string \<Rightarrow> string" where
  "local_path patent_number = ''patent_json/'' @ patent_number @ ''.json''"

definition verify_ipfs_upload :: "env \<Rightarrow> string \<Rightarrow> ingest \<Rightarrow> ingest" where
  "verify_ipfs_upload e ipfs_hash st =
     (let got = (if http e (requests st) = Ok200 then blocks st ipfs_hash else None);
          st1 = send (IpfsCat ipfs_hash) st
      in case got of
           None \<Rightarrow> st1
         | Some data \<Rightarrow> (if data \<noteq> [] then send MfsLs st1 else st1))"

text \<open>
  The part of \<^verbatim>\<open>save_and_upload\<close> after the local save: pin, mirror in MFS, verify.
\<close>

definition pin_and_mirror :: "env \<Rightarrow> string \<Rightarrow> string \<Rightarrow> ingest \<Rightarrow> string \<times> ingest" where
  "pin_and_mirror e final_hash patent_number st =
     (let r3 = http e (requests st);
          st3 = send (IpfsPin final_hash) st
      in if r3 = ConnError then ([], st3)
         else
           (let st3' = (if r3 = Ok200 then st3\<lparr>pinned := pinned st3 \<union> {final_hash}\<rparr> else st3);
                mfs_path = ''/patents/'' @ patent_number @ ''.json'';
                r4 = http e (requests st3');
                st4 = send (MfsRm mfs_path) st3';
                st4' = (if r4 = Ok200 then st4\<lparr>mfs := (mfs st4)(mfs_path := None)\<rparr> else st4);
                r5 = http e (requests st4');
                st5 = send (MfsCp (''/ipfs/'' @ final_hash) mfs_path) st4';
                st5' = (if r5 = Ok200 then st5\<lparr>mfs := (mfs st5)(mfs_path \<mapsto> final_hash)\<rparr> else st5);
                r6 = http e (requests st5');
                st6 = send (MfsStat mfs_path) st5'
            in if r6 = ConnError then ([], st6)
               else (final_hash, verify_ipfs_upload e final_hash st6)))"

definition save_and_upload :: "env \<Rightarrow> pydict \<Rightarrow> string \<Rightarrow> ingest \<Rightarrow> string \<times> ingest" where
  "save_and_upload e patent_data patent_number st =
     (let formatted_data = format_patent patent_data patent_number;
          r1 = http e (requests st);
          st1 = send (IpfsAdd formatted_data) st
      in if r1 \<noteq> Ok200 then ([], st1)
         else
           (let ipfs_hash = cid e formatted_data;
                st1' = st1\<lparr>blocks := (blocks st1)(ipfs_hash \<mapsto> formatted_data)\<rparr>;
                with_hash = dict_set formatted_data ''ipfs_hash'' (PStr ipfs_hash);
                r2 = http e (requests st1');
                st2 = send (IpfsAdd with_hash) st1'
            in if r2 \<noteq> Ok200 then ([], st2)
               else
                 (let final_hash = cid e with_hash;
                      st2' = st2\<lparr>blocks := (blocks st2)(final_hash \<mapsto> with_hash)\<rparr>;
                      json_path = local_path patent_number;
                      st3 = st2'\<lparr>json_files := (json_files st2')(json_path \<mapsto> (2, with_hash)),
                                 calls := calls st2' @ [LocalWrite json_path 2 with_hash]\<rparr>
                  in pin_and_mirror e final_hash patent_number st3)))"

section \<open>The ingestion loop (working.py)\<close>

definition clean_url :: "string \<Rightarrow> string" where
  "clean_url url = filter (\<lambda>c. c \<noteq> CHR ''@'') (strip url)"

text \<open>The body of the loop of \<^verbatim>\<open>main\<close> for one URL.\<close>

definition process_url :: "env \<Rightarrow> string \<Rightarrow> ingest \<Rightarrow> ingest" where
  "process_url e url0 st =
     (let url = clean_url url0
      in case search_patent url of
           None \<Rightarrow> st
         | Some patent_no \<Rightarrow>
             (let json_path = local_path patent_no
              in if json_files st json_path \<noteq> None then
                   st\<lparr>skipped_patents := skipped_patents st @ [patent_no]\<rparr>
                 else
                   (let st1 = st\<lparr>calls := calls st @ [Extract url]\<rparr>
                    in case extract_patent_info_with_llm (render e url) url of
                         None \<Rightarrow> st1\<lparr>calls := calls st1 @ [Pause 2]\<rparr>
                       | Some extracted \<Rightarrow>
                           (let patent_data = dict_set extracted ''publication_number'' (PStr patent_no);
                                st2 = st1\<lparr>json_files := (json_files st1)(json_path \<mapsto> (4, patent_data)),
                                         calls := calls st1 @ [LocalWrite json_path 4 patent_data]\<rparr>;
                                text = dumps e patent_data;
                                st3 = st2\<lparr>calls := calls st2 @ [Embed text]\<rparr>
                            in if index_fails e text then st3
                               else
                                 (let doc_id = uuid4 e (length (chroma st3));
                                      st4 = st3\<lparr>chroma := chroma st3 @ [(doc_id, text)],
                                               calls := calls st3 @ [IndexAdd doc_id]\<rparr>;
                                      up = save_and_upload e patent_data patent_no st4;
                                      st5 = (if fst up \<noteq> [] then
                                               (snd up)\<lparr>processed_patents :=
                                                          processed_patents (snd up) @ [patent_no]\<rparr>
                                             else snd up)
                                  in st5\<lparr>calls := calls st5 @ [Pause 2]\<rparr>)))))"

fun process_urls :: "env \<Rightarrow> string list \<Rightarrow> ingest \<Rightarrow> ingest" where
  "process_urls e [] st = st"
| "process_urls e (url # urls) st = process_urls e urls (process_url e url st)"

text \<open>
  \<^verbatim>\<open>main\<close>, given the lines of the URL file: the handler is created (one request for
  the MFS directory), the lines are stripped and the empty ones dropped, and each URL is
  processed in turn.
\<close>

definition main :: "env \<Rightarrow> string list \<Rightarrow> ingest \<Rightarrow> ingest" where
  "main e lines st =
     (let st0 = send MfsMkdir st;
          patent_urls = filter (\<lambda>l. l \<noteq> []) (map strip lines)
      in if patent_urls = [] then st0
         else process_urls e patent_urls
                (st0\<lparr>processed_patents := [], skipped_patents := []\<rparr>))"

text \<open>The addresses of the pin requests and the local writes among the calls, in order.\<close>

fun pins_of :: "call list \<Rightarrow> string list" where
  "pins_of [] = []"
| "pins_of (IpfsPin h # cs) = h # pins_of cs"
| "pins_of (c # cs) = pins_of cs"

fun local_writes :: "call list \<Rightarrow> (string \<times> nat \<times> pydict) list" where
  "local_writes [] = []"
| "local_writes (LocalWrite path indent doc # cs) = (path, indent, doc) # local_writes cs"
| "local_writes (c # cs) = local_writes cs"

text \<open>
  An address function that gives different documents different addresses: each string
  is written after its length in unary.
\<close>

definition enc_str :: "string \<Rightarrow> string" where
  "enc_str s = replicate (length s) CHR ''1'' @ CHR ''0'' # s"

fun enc_strs :: "string list \<Rightarrow> string" where
  "enc_strs [] = ''e''"
| "enc_strs (x # xs) = CHR ''c'' # enc_str x @ enc_strs xs"

fun enc_val :: "pyval \<Rightarrow> string" where
  "enc_val (PStr s) = CHR ''s'' # enc_str s"
| "enc_val PNone = ''n''"
| "enc_val (PList xs) = CHR ''l'' # enc_strs xs"

fun enc_dict :: "pydict \<Rightarrow> string" where
  "enc_dict [] = ''e''"
| "enc_dict ((k, v) # d) = CHR ''c'' # enc_str k @ enc_val v @ enc_dict d"

text \<open>A rendered page, its URL, the record extracted from it, and services that all answer.\<close>

definition page_example :: page where
  "page_example =
     \<lparr>claims_section = Some ''1. A claim.'', abstract_section = None,
      inventor_dd = Some '' Ada '', assigneeCurrent_dd = None,
      assigneeOriginal_dd = Some ''Acme'', filingDate_time = None,
      title_span = Some ''Widget'', page_text = ''Widget''\<rparr>"

definition url_example :: string where
  "url_example = ''https://patents.google.com/patent/US1/en''"

definition record_example :: pydict where
  "record_example =
     [(''patent_title'', PStr ''Widget''), (''abstract'', PStr ''N/A''),
      (''inventor_name'', PStr ''Ada''), (''assignee_name'', PStr ''Acme''),
      (''filing_date'', PStr ''N/A''), (''patent_text'', PStr ''Widget''),
      (''patent_url'', PStr ''https://patents.google.com/patent/US1/en''),
      (''publication_number'', PStr ''US1''), (''inventions'', PList [''1. A claim.''])]"

definition formatted_example :: pydict where
  "formatted_example =
     [(''patent_title'', PStr ''Widget''), (''abstract'', PStr ''N/A''),
      (''inventions'', PList [''1. A claim.'']), (''publication_number'', PStr ''US1''),
      (''filing_date'', PStr ''N/A''), (''assignee_name'', PStr ''Acme''),
      (''inventor_name'', PStr ''Ada''),
      (''patent_url'', PStr ''https://patents.google.com/patent/US1/en''),
      (''patent_text'', PStr ''Widget'')]"

definition env_example :: env where
  "env_example =
     \<lparr>render = (\<lambda>url. Some page_example), http = (\<lambda>n. Ok200), cid = enc_dict,
      dumps = enc_dict, index_fails = (\<lambda>t. False), uuid4 = str_nat\<rparr>"

definition empty_store :: ingest where
  "empty_store =
     \<lparr>json_files = Map.empty, blocks = Map.empty, pinned = {}, mfs = Map.empty, chroma = [],
      requests = 0, calls = [], processed_patents = [], skipped_patents = []\<rparr>"

text \<open>A store in which the file of the example record exists.\<close>

definition store_with_record :: ingest where
  "store_with_record = empty_store\<lparr>json_files := [local_path ''US1'' \<mapsto> (4, record_example)]\<rparr>"

section \<open>The retry loop and the shape of a run\<close>

declare fetch_with_retry.simps [simp del]

lemma fetch_with_retry_unroll:
  "fetch_with_retry web page url 0 w =
    (case web (gets w) url of
       Some h \<Rightarrow> (Inr (findall_patents h),
                  w\<lparr>gets := gets w + 1, trace := trace w @ [Fetched page (Some h), Slept PAGE_LOAD_DELAY]\<rparr>)
     | None \<Rightarrow>
        (case web (gets w + 1) url of
           Some h \<Rightarrow> (Inr (findall_patents h),
                      w\<lparr>gets := gets w + 2,
                        trace := trace w @ [Fetched page None, Slept PAGE_LOAD_DELAY,
                                            Fetched page (Some h), Slept PAGE_LOAD_DELAY]\<rparr>)
         | None \<Rightarrow>
            (case web (gets w + 2) url of
               Some h \<Rightarrow> (Inr (findall_patents h),
                          w\<lparr>gets := gets w + 3,
                            trace := trace w @ [Fetched page None, Slept PAGE_LOAD_DELAY,
                                                Fetched page None, Slept PAGE_LOAD_DELAY,
                                                Fetched page (Some h), Slept PAGE_LOAD_DELAY]\<rparr>)
             | None \<Rightarrow> (Inl WebDriverException,
                          w\<lparr>gets := gets w + 3,
                            trace := trace w @ [Fetched page None, Slept PAGE_LOAD_DELAY,
                                                Fetched page None, Slept PAGE_LOAD_DELAY,
                                                Fetched page None]\<rparr>))))"
  by (simp add: fetch_with_retry.simps [of web page url 0]
        fetch_with_retry.simps [of web page url 1]
        fetch_with_retry.simps [of web page url 2]
        fetch_with_retry.simps [of web page url "Suc 0"]
        fetch_with_retry.simps [of web page url "Suc (Suc 0)"]
        MAX_RETRIES_def Let_def numeral_2_eq_2 numeral_3_eq_3 split: option.splits)

lemma fetch_cases:
  obtains (ok) k h where "k \<le> 2"
      "fetch_with_retry web page url 0 w =
         (Inr (findall_patents h), w\<lparr>gets := gets w + Suc k, trace := trace w @ attempts page k h\<rparr>)"
  | (fail)
      "fetch_with_retry web page url 0 w =
         (Inl WebDriverException, w\<lparr>gets := gets w + 3, trace := trace w @ failed_attempts page\<rparr>)"
proof (cases "web (gets w) url")
  case (Some h)
  then have "fetch_with_retry web page url 0 w =
         (Inr (findall_patents h), w\<lparr>gets := gets w + Suc 0, trace := trace w @ attempts page 0 h\<rparr>)"
    by (simp add: fetch_with_retry_unroll attempts_def)
  then show ?thesis using ok [of 0 h] by simp
next
  case n0: None
  show ?thesis
  proof (cases "web (gets w + 1) url")
    case (Some h)
    then have "fetch_with_retry web page url 0 w =
         (Inr (findall_patents h), w\<lparr>gets := gets w + Suc 1, trace := trace w @ attempts page 1 h\<rparr>)"
      using n0 by (simp add: fetch_with_retry_unroll attempts_def)
    then show ?thesis using ok [of 1 h] by simp
  next
    case n1: None
    show ?thesis
    proof (cases "web (gets w + 2) url")
      case (Some h)
      then have "fetch_with_retry web page url 0 w =
         (Inr (findall_patents h), w\<lparr>gets := gets w + Suc 2, trace := trace w @ attempts page 2 h\<rparr>)"
        using n0 n1 by (simp add: fetch_with_retry_unroll attempts_def numeral_2_eq_2)
      then show ?thesis using ok [of 2 h] by simp
    next
      case None
      then have "fetch_with_retry web page url 0 w =
         (Inl WebDriverException, w\<lparr>gets := gets w + 3, trace := trace w @ failed_attempts page\<rparr>)"
        using n0 n1 by (simp add: fetch_with_retry_unroll failed_attempts_def)
      then show ?thesis using fail by simp
    qed
  qed
qed

lemma page_loop_shape:
  "\<exists>es. trace (snd (page_loop web sd ed fuel p w)) = trace w @ es \<and> run_shape p es"
proof (induction fuel arbitrary: p w)
  case 0
  show ?case by (simp add: shape_fuel)
next
  case (Suc fuel)
  show ?case
  proof (cases rule: fetch_cases [of web p "construct_url p sd ed" w])
    case (ok k h)
    show ?thesis
    proof (cases "findall_patents h = []")
      case True
      then show ?thesis using ok by (simp add: shape_done)
    next
      case False
      define w5 where "w5 = process_page sd p (findall_patents h)
          (w\<lparr>gets := gets w + Suc k, trace := trace w @ attempts p k h\<rparr>)"
      define written where "written = filter (\<lambda>x. x \<notin> existing_patents w)
          (filter (\<lambda>link. link \<notin> existing_patents w)
             (map patent_link (dict_fromkeys (findall_patents h))))"
      have tr: "trace w5 = trace w @ attempts p k h
                  @ [Appended p written, Checkpointed p, Slept BETWEEN_PAGES_DELAY]"
        by (simp add: w5_def written_def process_page_def save_new_patents_def
              save_scraping_state_def Let_def)
      have step: "page_loop web sd ed (Suc fuel) p w = page_loop web sd ed fuel (p + 1) w5"
        using ok False by (simp add: w5_def)
      from Suc.IH [of "p + 1" w5] obtain es where
        es: "trace (snd (page_loop web sd ed fuel (p + 1) w5)) = trace w5 @ es" "run_shape (p + 1) es"
        by blast
      show ?thesis
        using es tr step shape_page [OF ok(1) False es(2), of written] by simp
    qed
  next
    case fail
    then show ?thesis by (simp add: shape_failed)
  qed
qed

declare findall_patents.simps [simp del]

lemma le2_cases: "k \<le> 2 \<Longrightarrow> k = 0 \<or> k = Suc 0 \<or> k = Suc (Suc 0)"
  by arith

lemma fetched_pages_append: "fetched_pages (xs @ ys) = fetched_pages xs @ fetched_pages ys"
  by (induction xs rule: fetched_pages.induct) simp_all

lemma checkpoints_append: "checkpoints (xs @ ys) = checkpoints xs @ checkpoints ys"
  by (induction xs rule: checkpoints.induct) simp_all

lemma discovered_append: "discovered (xs @ ys) = discovered xs @ discovered ys"
  by (induction xs rule: discovered.induct) simp_all

lemma fetched_pages_attempts: "fetched_pages (attempts p k h) = replicate (Suc k) p"
  by (induction k) (simp_all add: attempts_def)

lemma discovered_attempts: "discovered (attempts p k h) = findall_patents h"
  by (induction k) (simp_all add: attempts_def)

lemma checkpoints_attempts: "checkpoints (attempts p k h) = []"
  by (induction k) (simp_all add: attempts_def)

lemma shape_pages_ge: "run_shape p es \<Longrightarrow> \<forall>q \<in> set (fetched_pages es). p \<le> q"
  by (induction rule: run_shape.induct)
     (auto simp: failed_attempts_def fetched_pages_append fetched_pages_attempts)

lemma shape_first_page: "run_shape p es \<Longrightarrow> es \<noteq> [] \<Longrightarrow> hd (fetched_pages es) = p \<and> fetched_pages es \<noteq> []"
  by (induction rule: run_shape.induct)
     (auto simp: failed_attempts_def fetched_pages_append fetched_pages_attempts)

lemma nfae_attempts_nonempty:
  "findall_patents h \<noteq> [] \<Longrightarrow> no_fetch_after_empty (attempts p k h @ es) = no_fetch_after_empty es"
  by (induction k) (simp_all add: attempts_def)

lemma nfae_attempts_empty:
  "findall_patents h = [] \<Longrightarrow> no_fetch_after_empty (attempts p k h)"
  by (induction k) (simp_all add: attempts_def)

lemma shape_no_fetch_after_empty: "run_shape p es \<Longrightarrow> no_fetch_after_empty es"
  by (induction rule: run_shape.induct)
     (simp_all add: failed_attempts_def nfae_attempts_nonempty nfae_attempts_empty)

lemma nfae_quit: "no_fetch_after_empty es \<Longrightarrow> no_fetch_after_empty (es @ [SessionQuit])"
  by (induction es rule: no_fetch_after_empty.induct) (simp_all add: fetched_pages_append)

lemma nfae_split:
  "no_fetch_after_empty (pre @ Fetched p (Some h) # post) \<Longrightarrow> findall_patents h = [] \<Longrightarrow>
   fetched_pages post = []"
  by (induction pre rule: no_fetch_after_empty.induct)
     (auto simp: fetched_pages_append split: if_splits)

lemma caa_attempts: "ckpt_after_append (attempts p k h @ es) = ckpt_after_append es"
  by (induction k) (simp_all add: attempts_def)

lemma shape_ckpt_after_append: "run_shape p es \<Longrightarrow> ckpt_after_append es"
proof (induction rule: run_shape.induct)
  case (shape_done k h p)
  then show ?case using caa_attempts [of p k h "[]"] by simp
qed (simp_all add: failed_attempts_def caa_attempts)

lemma caa_quit: "ckpt_after_append es \<Longrightarrow> ckpt_after_append (es @ [SessionQuit])"
  by (induction es rule: ckpt_after_append.induct) simp_all

lemma page_loop_Suc_events:
  "\<exists>e es. trace (snd (page_loop web sd ed (Suc fuel) p w)) = trace w @ e # es"
proof (cases rule: fetch_cases [of web p "construct_url p sd ed" w])
  case (ok k h)
  have att: "\<exists>e es. attempts p k h = e # es"
    by (cases k) (simp_all add: attempts_def)
  show ?thesis
  proof (cases "findall_patents h = []")
    case True
    then show ?thesis using ok att by auto
  next
    case False
    obtain es where "trace (snd (page_loop web sd ed fuel (p + 1)
        (process_page sd p (findall_patents h)
          (w\<lparr>gets := gets w + Suc k, trace := trace w @ attempts p k h\<rparr>)))) =
        trace (process_page sd p (findall_patents h)
          (w\<lparr>gets := gets w + Suc k, trace := trace w @ attempts p k h\<rparr>)) @ es"
      using page_loop_shape by blast
    then show ?thesis using ok False att
      by (auto simp: process_page_def save_new_patents_def save_scraping_state_def Let_def)
  qed
next
  case fail
  then show ?thesis by (simp add: failed_attempts_def)
qed

lemma getLinks_uncaught_events:
  "load_scraping_state (state_file w0) = Inl e \<Longrightarrow>
   getLinks web now fuel w0 =
     (Uncaught e, w0\<lparr>trace := trace w0 @ [SessionCreated], all_patent_links := [],
                     existing_patents := load_existing_patents w0\<rparr>)"
  by (simp add: getLinks_def load_existing_patents_def split: prod.splits)

lemma getLinks_events:
  assumes "load_scraping_state (state_file w0) = Inr (ld, lp)"
  shows "\<exists>es q. new_events w0 (snd (getLinks web now fuel w0)) = SessionCreated # es @ q
           \<and> run_shape (if ld = Some (fst (get_date_range now)) then lp else 0) es
           \<and> (q = [] \<or> q = [SessionQuit])
           \<and> (fuel = 0 \<or> es \<noteq> [])
           \<and> fst (getLinks web now fuel w0) \<noteq> Uncaught e"
proof -
  obtain sd ed where r: "get_date_range now = (sd, ed)" by (cases "get_date_range now")
  define w2 where "w2 = w0\<lparr>trace := trace w0 @ [SessionCreated], all_patent_links := [],
                          existing_patents := load_existing_patents w0\<rparr>"
  define pg where "pg = (if ld = Some sd then lp else 0)"
  obtain oc w3 where pl: "page_loop web sd ed fuel pg w2 = (oc, w3)"
    by (cases "page_loop web sd ed fuel pg w2")
  obtain es where es: "trace w3 = trace w2 @ es" "run_shape pg es"
    using page_loop_shape [of web sd ed fuel pg w2] pl by auto
  have ne: "fuel = 0 \<or> es \<noteq> []"
  proof (cases fuel)
    case 0 then show ?thesis by simp
  next
    case (Suc k)
    then show ?thesis using page_loop_Suc_events [of web sd ed k pg w2] pl es by auto
  qed
  have g: "getLinks web now fuel w0 =
      (case oc of OutOfFuel \<Rightarrow> (StillRunning, w3)
       | _ \<Rightarrow> (Returned (all_patent_links w3), w3\<lparr>trace := trace w3 @ [SessionQuit]\<rparr>))"
    using assms r pl
    by (simp add: getLinks_def w2_def pg_def load_existing_patents_def split: outcome.splits)
  show ?thesis
  proof (cases oc)
    case OutOfFuel
    then show ?thesis using g es ne r
      by (intro exI [of _ es] exI [of _ "[]"]) (simp add: new_events_def w2_def pg_def)
  next
    case WindowDone
    then show ?thesis using g es ne r
      by (intro exI [of _ es] exI [of _ "[SessionQuit]"]) (simp add: new_events_def w2_def pg_def)
  next
    case (Raised x)
    then show ?thesis using g es ne r
      by (intro exI [of _ es] exI [of _ "[SessionQuit]"]) (simp add: new_events_def w2_def pg_def)
  qed
qed

lemma load_malformed:
  "\<not> is_state_line content \<Longrightarrow> load_scraping_state (Some content) = Inl ValueError"
  by (auto simp: is_state_line_def load_scraping_state_def split: list.splits option.splits)

lemma load_wellformed:
  "is_state_line content \<Longrightarrow> \<exists>d p. load_scraping_state (Some content) = Inr (Some d, p)"
  by (auto simp: is_state_line_def load_scraping_state_def split: list.splits option.splits)

section \<open>Evaluating the concrete runs\<close>

lemma minus_days_numeral: "minus_days dt (numeral k) = minus_days (prev_day dt) (pred_numeral k)"
  by (simp add: numeral_eq_Suc)

lemma range_example: "get_date_range now_example = (start_example, end_example)"
proof -
  have a: "minus_days now_example 5 = end_example"
    by (simp add: now_example_def end_example_def prev_day_def minus_days_numeral)
  have b: "minus_days end_example 10 = start_example"
    by (simp add: start_example_def end_example_def prev_day_def minus_days_numeral)
  show ?thesis unfolding get_date_range_def Let_def a b by (rule refl)
qed

lemma ymd_example: "strftime_ymd start_example = ''2024-01-01''"
  by (simp add: start_example_def strftime_ymd_def zfill_def str_nat.simps digit_char_def)

lemma find_page0: "findall_patents ''US1 US1 US2'' = [''US1'', ''US1'', ''US2'']"
  by (simp add: findall_patents.simps match_US_def is_digit_def)
lemma find_page1: "findall_patents ''US3'' = [''US3'']"
  by (simp add: findall_patents.simps match_US_def is_digit_def)
lemma find_page2: "findall_patents ''no results'' = []"
  by (simp add: findall_patents.simps match_US_def is_digit_def)
lemma find_page3: "findall_patents ''US9'' = [''US9'']"
  by (simp add: findall_patents.simps match_US_def is_digit_def)

lemma page_loop_nonempty_step:
  "web (gets w) (construct_url p sd ed) = Some h \<Longrightarrow> findall_patents h = found \<Longrightarrow>
   found \<noteq> [] \<Longrightarrow>
   page_loop web sd ed (Suc fuel) p w =
     page_loop web sd ed fuel (p + 1)
       (process_page sd p found
          (w\<lparr>gets := gets w + 1, trace := trace w @ [Fetched p (Some h), Slept PAGE_LOAD_DELAY]\<rparr>))"
  by (auto simp add: fetch_with_retry_unroll)

lemma page_loop_empty_step:
  "web (gets w) (construct_url p sd ed) = Some h \<Longrightarrow> findall_patents h = [] \<Longrightarrow>
   page_loop web sd ed (Suc fuel) p w =
     (WindowDone, w\<lparr>gets := gets w + 1, trace := trace w @ [Fetched p (Some h), Slept PAGE_LOAD_DELAY]\<rparr>)"
  by (simp add: fetch_with_retry_unroll)

lemma page_loop_failed_step:
  "web (gets w) (construct_url p sd ed) = None \<Longrightarrow>
   web (gets w + 1) (construct_url p sd ed) = None \<Longrightarrow>
   web (gets w + 2) (construct_url p sd ed) = None \<Longrightarrow>
   page_loop web sd ed (Suc fuel) p w =
     (Raised WebDriverException, w\<lparr>gets := gets w + 3, trace := trace w @ failed_attempts p\<rparr>)"
  by (simp add: fetch_with_retry_unroll failed_attempts_def)

declare page_loop.simps [simp del]

lemmas page_eval = process_page_def dict_fromkeys_def fromkeys_from_def patent_link_def
  save_new_patents_def save_scraping_state_def str_int_def str_nat.simps digit_char_def
  PAGE_LOAD_DELAY_def BETWEEN_PAGES_DELAY_def Let_def

lemma step_page0:
  "page_loop web_two_pages start_example end_example (Suc fuel) 0 (fresh\<lparr>trace := [SessionCreated]\<rparr>) =
   page_loop web_two_pages start_example end_example fuel 1 after_page0"
proof -
  let ?w = "fresh\<lparr>trace := [SessionCreated]\<rparr>"
  have web: "web_two_pages (gets ?w) (construct_url 0 start_example end_example) = Some ''US1 US1 US2''"
    by (simp add: web_two_pages_def fresh_def)
  have pp: "process_page start_example 0 [''US1'', ''US1'', ''US2'']
          (?w\<lparr>gets := gets ?w + 1,
               trace := trace ?w @ [Fetched 0 (Some ''US1 US1 US2''), Slept PAGE_LOAD_DELAY]\<rparr>)
        = after_page0"
    by (simp add: page_eval fresh_def after_page0_def ymd_example del: set_filter)
  show ?thesis
    using page_loop_nonempty_step [of web_two_pages ?w 0 start_example end_example
            "''US1 US1 US2''" "[''US1'', ''US1'', ''US2'']" fuel] web find_page0 pp by simp
qed

lemma step_page1:
  "page_loop web_two_pages start_example end_example (Suc fuel) 1 after_page0 =
   page_loop web_two_pages start_example end_example fuel 2 after_page1"
proof -
  have web: "web_two_pages (gets after_page0) (construct_url 1 start_example end_example) = Some ''US3''"
    by (simp add: web_two_pages_def after_page0_def)
  have pp: "process_page start_example 1 [''US3'']
          (after_page0\<lparr>gets := gets after_page0 + 1,
             trace := trace after_page0 @ [Fetched 1 (Some ''US3''), Slept PAGE_LOAD_DELAY]\<rparr>)
        = after_page1"
    by (simp add: page_eval after_page0_def after_page1_def ymd_example del: set_filter)
  show ?thesis
    using page_loop_nonempty_step [of web_two_pages after_page0 1 start_example end_example
            "''US3''" "[''US3'']" fuel] web find_page1 pp by simp
qed

lemma step_page2:
  "page_loop web_two_pages start_example end_example (Suc fuel) 2 after_page1 =
   (WindowDone, after_page1\<lparr>gets := 3,
       trace := trace after_page1 @ [Fetched 2 (Some ''no results''), Slept 15]\<rparr>)"
proof -
  have web: "web_two_pages (gets after_page1) (construct_url 2 start_example end_example) = Some ''no results''"
    by (simp add: web_two_pages_def after_page1_def)
  have g: "gets after_page1 + 1 = 3" by (simp add: after_page1_def)
  show ?thesis
    using page_loop_empty_step [of web_two_pages after_page1 2 start_example end_example
            "''no results''" fuel] web find_page2 g by (simp add: PAGE_LOAD_DELAY_def)
qed

lemma links_after_page1:
  "all_patent_links after_page1 =
     [''https://patents.google.com/patent/US1'', ''https://patents.google.com/patent/US2'',
      ''https://patents.google.com/patent/US3'']"
  by (simp add: after_page1_def)

lemma run_two_pages:
  "getLinks web_two_pages now_example (Suc (Suc (Suc fuel))) fresh =
     (Returned [''https://patents.google.com/patent/US1'',
                ''https://patents.google.com/patent/US2'',
                ''https://patents.google.com/patent/US3''], after_window)"
proof -
  have w2: "fresh\<lparr>trace := trace fresh @ [SessionCreated], all_patent_links := [],
                 existing_patents := load_existing_patents (fresh\<lparr>trace := trace fresh @ [SessionCreated], all_patent_links := []\<rparr>)\<rparr>
            = fresh\<lparr>trace := [SessionCreated]\<rparr>"
    by (simp add: fresh_def load_existing_patents_def)
  have st: "state_file (fresh\<lparr>trace := [SessionCreated]\<rparr>) = None"
    by (simp add: fresh_def)
  show ?thesis
    unfolding getLinks_def range_example Let_def prod.case w2 st
    by (simp add: load_scraping_state_def step_page0 step_page1 step_page2 after_window_def
          links_after_page1)
qed

section \<open>Properties of the crawler\<close>

lemma getLinks_no_fetch_after_empty:
  "no_fetch_after_empty (new_events w0 (snd (getLinks web now fuel w0)))"
proof (cases "load_scraping_state (state_file w0)")
  case (Inl e)
  then show ?thesis by (simp add: getLinks_uncaught_events new_events_def)
next
  case (Inr x)
  obtain ld lp where x: "x = (ld, lp)" by (cases x)
  from getLinks_events [of w0 ld lp web now fuel] Inr x obtain es q where
    e: "new_events w0 (snd (getLinks web now fuel w0)) = SessionCreated # es @ q"
       "run_shape (if ld = Some (fst (get_date_range now)) then lp else 0) es"
       "q = [] \<or> q = [SessionQuit]"
    by blast
  then show ?thesis
    using shape_no_fetch_after_empty [OF e(2)] nfae_quit [of es] by auto
qed

text \<open>
  Claim C6.  In any run, once a fetch has given a page source with no identifier in it,
  no page is fetched any more: whatever follows that fetch in the events of the run
  contains no fetch, whatever the web would have answered.
\<close>

theorem empty_page_ends_pagination:
  assumes "new_events w0 (snd (getLinks web now fuel w0)) = pre @ Fetched p (Some h) # post"
      and "findall_patents h = []"
  shows "fetched_pages post = []"
  using getLinks_no_fetch_after_empty [of w0 web now fuel] assms nfae_split by simp

lemma trace_fresh: "trace fresh = []"
  by (simp add: fresh_def)

lemma trace_after_window:
  "trace after_window =
     [SessionCreated, Fetched 0 (Some ''US1 US1 US2''), Slept 15,
      Appended 0 [''https://patents.google.com/patent/US1'',
                  ''https://patents.google.com/patent/US2''],
      Checkpointed 0, Slept 10, Fetched 1 (Some ''US3''), Slept 15,
      Appended 1 [''https://patents.google.com/patent/US3''], Checkpointed 1, Slept 10,
      Fetched 2 (Some ''no results''), Slept 15, SessionQuit]"
  by (simp add: after_window_def after_page1_def)

theorem empty_page_ends_pagination_witness:
  "new_events fresh (snd (getLinks web_two_pages now_example (Suc (Suc (Suc 0))) fresh)) =
     [SessionCreated, Fetched 0 (Some ''US1 US1 US2''), Slept 15,
      Appended 0 [''https://patents.google.com/patent/US1'',
                  ''https://patents.google.com/patent/US2''],
      Checkpointed 0, Slept 10, Fetched 1 (Some ''US3''), Slept 15,
      Appended 1 [''https://patents.google.com/patent/US3''], Checkpointed 1, Slept 10]
     @ Fetched 2 (Some ''no results'') # [Slept 15, SessionQuit]
   \<and> findall_patents ''no results'' = []
   \<and> web_two_pages 3 (construct_url 3 start_example end_example) = Some ''US9''
   \<and> findall_patents ''US9'' = [''US9'']
   \<and> fetched_pages [Slept 15, SessionQuit] = []"
  using empty_page_ends_pagination [of fresh web_two_pages now_example "Suc (Suc (Suc 0))"
      "[SessionCreated, Fetched 0 (Some ''US1 US1 US2''), Slept 15,
      Appended 0 [''https://patents.google.com/patent/US1'',
                  ''https://patents.google.com/patent/US2''],
      Checkpointed 0, Slept 10, Fetched 1 (Some ''US3''), Slept 15,
      Appended 1 [''https://patents.google.com/patent/US3''], Checkpointed 1, Slept 10]"
      2 "''no results''" "[Slept 15, SessionQuit]"]
  by (simp add: run_two_pages new_events_def trace_after_window find_page2 find_page3
        web_two_pages_def trace_fresh)

text \<open>
  Claim C10.  When the checkpoint file exists and its content is not a date, a comma and
  an integer, \<^verbatim>\<open>getLinks\<close> ends with the \<^verbatim>\<open>ValueError\<close> of
  \<^verbatim>\<open>load_scraping_state\<close>, uncaught, having fetched no page and written no file.
  When the file is absent the run goes on and its first fetch is page 0.
\<close>

theorem malformed_checkpoint_aborts_run:
  "(state_file w0 = Some content \<and> \<not> is_state_line content \<longrightarrow>
      getLinks web now fuel w0 =
        (Uncaught ValueError,
         w0\<lparr>trace := trace w0 @ [SessionCreated], all_patent_links := [],
            existing_patents := load_existing_patents w0\<rparr>)
      \<and> fetched_pages (new_events w0 (snd (getLinks web now fuel w0))) = [])
   \<and> (state_file w0 = None \<longrightarrow>
        fst (getLinks web now (Suc fuel) w0) \<noteq> Uncaught ValueError
        \<and> fetched_pages (new_events w0 (snd (getLinks web now (Suc fuel) w0))) \<noteq> []
        \<and> hd (fetched_pages (new_events w0 (snd (getLinks web now (Suc fuel) w0)))) = 0)"
proof (intro conjI impI)
  assume a: "state_file w0 = Some content \<and> \<not> is_state_line content"
  then have l: "load_scraping_state (state_file w0) = Inl ValueError"
    using load_malformed [of content] by simp
  show "getLinks web now fuel w0 =
        (Uncaught ValueError,
         w0\<lparr>trace := trace w0 @ [SessionCreated], all_patent_links := [],
            existing_patents := load_existing_patents w0\<rparr>)"
    using l by (rule getLinks_uncaught_events)
  then show "fetched_pages (new_events w0 (snd (getLinks web now fuel w0))) = []"
    by (simp add: new_events_def)
next
  assume a: "state_file w0 = None"
  then have l: "load_scraping_state (state_file w0) = Inr (None, 0)"
    by (simp add: load_scraping_state_def)
  from getLinks_events [OF l, of web now "Suc fuel" ValueError] obtain es q where
    e: "new_events w0 (snd (getLinks web now (Suc fuel) w0)) = SessionCreated # es @ q"
       "run_shape 0 es" "es \<noteq> []"
       "fst (getLinks web now (Suc fuel) w0) \<noteq> Uncaught ValueError"
    by auto
  show "fst (getLinks web now (Suc fuel) w0) \<noteq> Uncaught ValueError" by (rule e(4))
  show "fetched_pages (new_events w0 (snd (getLinks web now (Suc fuel) w0))) \<noteq> []"
    using e shape_first_page [OF e(2) e(3)] by (simp add: fetched_pages_append)
  show "hd (fetched_pages (new_events w0 (snd (getLinks web now (Suc fuel) w0)))) = 0"
    using e shape_first_page [OF e(2) e(3)] by (simp add: fetched_pages_append)
qed

lemma garbage_not_state_line: "\<not> is_state_line ''garbage''"
  by (simp add: is_state_line_def strip_def py_isspace_def)

theorem malformed_checkpoint_aborts_run_witness:
  "state_file (fresh\<lparr>state_file := Some ''garbage''\<rparr>) = Some ''garbage''
   \<and> \<not> is_state_line ''garbage''
   \<and> getLinks web_two_pages now_example (Suc 0) (fresh\<lparr>state_file := Some ''garbage''\<rparr>) =
        (Uncaught ValueError,
         fresh\<lparr>state_file := Some ''garbage'', trace := [SessionCreated]\<rparr>)
   \<and> state_file fresh = None
   \<and> hd (fetched_pages (new_events fresh (snd (getLinks web_two_pages now_example (Suc 0) fresh)))) = 0"
  using malformed_checkpoint_aborts_run [of "fresh\<lparr>state_file := Some ''garbage''\<rparr>"
          "''garbage''" web_two_pages now_example "Suc 0"]
        malformed_checkpoint_aborts_run [of fresh "''garbage''" web_two_pages now_example 0]
        garbage_not_state_line
  by (simp add: fresh_def load_existing_patents_def)

lemma process_page_effect:
  "process_page sd p found w =
     w\<lparr>patents_file := patents_file w
          @ filter (\<lambda>l. l \<notin> existing_patents w) (map patent_link (dict_fromkeys found)),
       trace := trace w
          @ [Appended p (filter (\<lambda>l. l \<notin> existing_patents w) (map patent_link (dict_fromkeys found))),
             Checkpointed p, Slept BETWEEN_PAGES_DELAY],
       existing_patents := existing_patents w
          \<union> set (filter (\<lambda>l. l \<notin> existing_patents w) (map patent_link (dict_fromkeys found))),
       all_patent_links := all_patent_links w
          @ filter (\<lambda>l. l \<notin> existing_patents w) (map patent_link (dict_fromkeys found)),
       state_file := Some (strftime_ymd sd @ '','' @ str_int p)\<rparr>"
  by (simp add: process_page_def save_new_patents_def save_scraping_state_def Let_def
        del: set_filter)

lemma getLinks_ckpt_after_append:
  "ckpt_after_append (new_events w0 (snd (getLinks web now fuel w0)))"
proof (cases "load_scraping_state (state_file w0)")
  case (Inl e)
  then show ?thesis by (simp add: getLinks_uncaught_events new_events_def)
next
  case (Inr x)
  obtain ld lp where x: "x = (ld, lp)" by (cases x)
  from getLinks_events [of w0 ld lp web now fuel] Inr x obtain es q where
    e: "new_events w0 (snd (getLinks web now fuel w0)) = SessionCreated # es @ q"
       "run_shape (if ld = Some (fst (get_date_range now)) then lp else 0) es"
       "q = [] \<or> q = [SessionQuit]"
    by blast
  then show ?thesis
    using shape_ckpt_after_append [OF e(2)] caa_quit [of es] by auto
qed

lemma str_int_1: "str_int 1 = ''1''"
  by (simp add: str_int_def str_nat.simps digit_char_def)

lemma two_pages_then_empty:
  assumes st: "state_file w0 = None"
      and r: "get_date_range now = (sd, ed)"
      and p0: "web (gets w0) (construct_url 0 sd ed) = Some h0" "findall_patents h0 \<noteq> []"
      and p1: "web (gets w0 + 1) (construct_url 1 sd ed) = Some h1" "findall_patents h1 \<noteq> []"
      and p2: "web (gets w0 + 2) (construct_url 2 sd ed) = Some h2" "findall_patents h2 = []"
  shows "state_file (snd (getLinks web now (Suc (Suc (Suc fuel))) w0)) = Some (strftime_ymd sd @ '',1'')
       \<and> checkpoints (new_events w0 (snd (getLinks web now (Suc (Suc (Suc fuel))) w0))) = [0, 1]
       \<and> fetched_pages (new_events w0 (snd (getLinks web now (Suc (Suc (Suc fuel))) w0))) = [0, 1, 2]
       \<and> (\<exists>links. fst (getLinks web now (Suc (Suc (Suc fuel))) w0) = Returned links)"
proof -
  define w2 where "w2 = w0\<lparr>trace := trace w0 @ [SessionCreated], all_patent_links := [],
                          existing_patents := load_existing_patents w0\<rparr>"
  define a0 where "a0 = w2\<lparr>gets := gets w2 + 1,
      trace := trace w2 @ [Fetched 0 (Some h0), Slept PAGE_LOAD_DELAY]\<rparr>"
  define w3 where "w3 = process_page sd 0 (findall_patents h0) a0"
  define a1 where "a1 = w3\<lparr>gets := gets w3 + 1,
      trace := trace w3 @ [Fetched 1 (Some h1), Slept PAGE_LOAD_DELAY]\<rparr>"
  define w4 where "w4 = process_page sd 1 (findall_patents h1) a1"
  define w5 where "w5 = w4\<lparr>gets := gets w4 + 1,
      trace := trace w4 @ [Fetched 2 (Some h2), Slept PAGE_LOAD_DELAY]\<rparr>"
  have g2: "gets w2 = gets w0" by (simp add: w2_def)
  have g3: "gets w3 = gets w0 + 1" by (simp add: w3_def a0_def process_page_effect g2)
  have g4: "gets w4 = gets w0 + 2" by (simp add: w4_def a1_def process_page_effect g3)
  have s1: "page_loop web sd ed (Suc (Suc (Suc fuel))) 0 w2 = page_loop web sd ed (Suc (Suc fuel)) 1 w3"
    using page_loop_nonempty_step [of web w2 0 sd ed h0 "findall_patents h0" "Suc (Suc fuel)"] p0 g2
    by (simp add: w3_def a0_def)
  have s2: "page_loop web sd ed (Suc (Suc fuel)) 1 w3 = page_loop web sd ed (Suc fuel) 2 w4"
    using page_loop_nonempty_step [of web w3 1 sd ed h1 "findall_patents h1" "Suc fuel"] p1 g3
    by (simp add: w4_def a1_def)
  have s3: "page_loop web sd ed (Suc fuel) 2 w4 = (WindowDone, w5)"
    using page_loop_empty_step [of web w4 2 sd ed h2 fuel] p2 g4
    by (simp add: w5_def)
  have g: "getLinks web now (Suc (Suc (Suc fuel))) w0 =
             (Returned (all_patent_links w5), w5\<lparr>trace := trace w5 @ [SessionQuit]\<rparr>)"
    using st r s1 s2 s3
    by (simp add: getLinks_def load_scraping_state_def load_existing_patents_def w2_def)
  have tr: "trace w5 = trace w0 @ [SessionCreated, Fetched 0 (Some h0), Slept PAGE_LOAD_DELAY,
       Appended 0 (filter (\<lambda>l. l \<notin> existing_patents a0) (map patent_link (dict_fromkeys (findall_patents h0)))),
       Checkpointed 0, Slept BETWEEN_PAGES_DELAY,
       Fetched 1 (Some h1), Slept PAGE_LOAD_DELAY,
       Appended 1 (filter (\<lambda>l. l \<notin> existing_patents a1) (map patent_link (dict_fromkeys (findall_patents h1)))),
       Checkpointed 1, Slept BETWEEN_PAGES_DELAY,
       Fetched 2 (Some h2), Slept PAGE_LOAD_DELAY]"
    by (simp add: w5_def w4_def a1_def w3_def a0_def w2_def process_page_effect)
  have sf: "state_file w5 = Some (strftime_ymd sd @ '',1'')"
    by (simp add: w5_def w4_def process_page_effect str_int_1)
  show ?thesis
    using g tr sf by (simp add: new_events_def)
qed

text \<open>
  Claim C5.  In the events of any run, every write of the checkpoint for a page comes
  directly after the append of that page's new links to patent_urls.txt: processing a
  page appends first and saves the state second.  In a window whose pages 0 and 1 have
  results and whose page 2 has none, the run ends with the checkpoint at page 1, having
  written the checkpoint for pages 0 and 1 only.
\<close>

theorem checkpoint_written_after_append:
  "ckpt_after_append (new_events w0 (snd (getLinks web now fuel w0)))
   \<and> trace (process_page sd p found w) =
        trace w @ [Appended p (filter (\<lambda>l. l \<notin> existing_patents w)
                                 (map patent_link (dict_fromkeys found))),
                   Checkpointed p, Slept BETWEEN_PAGES_DELAY]
   \<and> patents_file (process_page sd p found w) =
        patents_file w @ filter (\<lambda>l. l \<notin> existing_patents w)
                           (map patent_link (dict_fromkeys found))
   \<and> state_file (process_page sd p found w) = Some (strftime_ymd sd @ '','' @ str_int p)
   \<and> (state_file w0 = None \<and> get_date_range now = (sd, ed)
        \<and> web (gets w0) (construct_url 0 sd ed) = Some h0 \<and> findall_patents h0 \<noteq> []
        \<and> web (gets w0 + 1) (construct_url 1 sd ed) = Some h1 \<and> findall_patents h1 \<noteq> []
        \<and> web (gets w0 + 2) (construct_url 2 sd ed) = Some h2 \<and> findall_patents h2 = []
      \<longrightarrow> state_file (snd (getLinks web now (Suc (Suc (Suc k))) w0))
            = Some (strftime_ymd sd @ '',1'')
          \<and> checkpoints (new_events w0 (snd (getLinks web now (Suc (Suc (Suc k))) w0))) = [0, 1]
          \<and> fetched_pages (new_events w0 (snd (getLinks web now (Suc (Suc (Suc k))) w0)))
            = [0, 1, 2]
          \<and> (\<exists>links. fst (getLinks web now (Suc (Suc (Suc k))) w0) = Returned links))"
proof (intro conjI impI)
  show "ckpt_after_append (new_events w0 (snd (getLinks web now fuel w0)))"
    by (rule getLinks_ckpt_after_append)
next
  assume a: "state_file w0 = None \<and> get_date_range now = (sd, ed)
        \<and> web (gets w0) (construct_url 0 sd ed) = Some h0 \<and> findall_patents h0 \<noteq> []
        \<and> web (gets w0 + 1) (construct_url 1 sd ed) = Some h1 \<and> findall_patents h1 \<noteq> []
        \<and> web (gets w0 + 2) (construct_url 2 sd ed) = Some h2 \<and> findall_patents h2 = []"
  note t = two_pages_then_empty [of w0 now sd ed web h0 h1 h2 k]
  show "state_file (snd (getLinks web now (Suc (Suc (Suc k))) w0)) = Some (strftime_ymd sd @ '',1'')"
    using a t by blast
  show "checkpoints (new_events w0 (snd (getLinks web now (Suc (Suc (Suc k))) w0))) = [0, 1]"
    using a t by blast
  show "fetched_pages (new_events w0 (snd (getLinks web now (Suc (Suc (Suc k))) w0))) = [0, 1, 2]"
    using a t by blast
  show "\<exists>links. fst (getLinks web now (Suc (Suc (Suc k))) w0) = Returned links"
    using a t by blast
qed (simp_all add: process_page_effect)

lemma state_fresh: "state_file fresh = None" by (simp add: fresh_def)
lemma gets_fresh: "gets fresh = 0" by (simp add: fresh_def)

theorem checkpoint_written_after_append_witness:
  "state_file fresh = None
   \<and> findall_patents ''US1 US1 US2'' = [''US1'', ''US1'', ''US2'']
   \<and> findall_patents ''US3'' = [''US3'']
   \<and> findall_patents ''no results'' = []
   \<and> state_file (snd (getLinks web_two_pages now_example (Suc (Suc (Suc 0))) fresh))
       = Some ''2024-01-01,1''
   \<and> checkpoints (new_events fresh (snd (getLinks web_two_pages now_example (Suc (Suc (Suc 0))) fresh)))
       = [0, 1]
   \<and> fetched_pages (new_events fresh (snd (getLinks web_two_pages now_example (Suc (Suc (Suc 0))) fresh)))
       = [0, 1, 2]"
  using checkpoint_written_after_append [of fresh web_two_pages now_example 0 start_example 0 "[]"
          fresh end_example "''US1 US1 US2''" "''US3''" "''no results''" 0]
  by (simp add: state_fresh gets_fresh range_example web_two_pages_def find_page0 find_page1
        find_page2 ymd_example)

lemma run_pages_start:
  assumes "load_scraping_state (state_file w0) = Inr (ld, p)"
  shows "run_pages web now (Suc fuel) w0 \<noteq> []
       \<and> hd (run_pages web now (Suc fuel) w0) = (if ld = Some (fst (get_date_range now)) then p else 0)
       \<and> (\<forall>q \<in> set (run_pages web now (Suc fuel) w0).
             (if ld = Some (fst (get_date_range now)) then p else 0) \<le> q)"
proof -
  from getLinks_events [OF assms, of web now "Suc fuel" ValueError] obtain es q where
    e: "new_events w0 (snd (getLinks web now (Suc fuel) w0)) = SessionCreated # es @ q"
       "run_shape (if ld = Some (fst (get_date_range now)) then lp else 0) es \<or> True"
       "run_shape (if ld = Some (fst (get_date_range now)) then p else 0) es"
       "q = [] \<or> q = [SessionQuit]" "es \<noteq> []"
    by auto
  have fq: "fetched_pages q = []" using e(4) by auto
  show ?thesis
    using shape_first_page [OF e(3) e(5)] shape_pages_ge [OF e(3)] e(1) fq
    by (simp add: run_pages_def fetched_pages_append)
qed

lemma load_checkpoint_example:
  "load_scraping_state (Some ''2024-01-01,1'') = Inr (Some start_example, 1)"
  by (simp add: load_scraping_state_def strip_def py_isspace_def strptime_ymd_def is_digit_def
        nonzero_digit_def digit_val_def days_in_month_def is_leap_def py_int_def
        start_example_def)

lemma load_absent: "load_scraping_state None = Inr (None, 0)"
  by (simp add: load_scraping_state_def)

lemma state_after_window: "state_file after_window = Some ''2024-01-01,1''"
  by (simp add: after_window_def after_page1_def)

text \<open>
  The date read from the checkpoint is at midnight, the start date of a run has the time
  of day of the clock: a run that does not start at midnight exactly finds every
  checkpoint different from its start date and begins at page 0.
\<close>

lemma strptime_midnight:
  "strptime_ymd s = Some d \<Longrightarrow>
   hour d = 0 \<and> minute d = 0 \<and> second d = 0 \<and> microsecond d = 0"
  by (auto simp: strptime_ymd_def Let_def split: list.splits if_splits option.splits prod.splits)

lemma prev_day_time:
  "hour (prev_day dt) = hour dt \<and> minute (prev_day dt) = minute dt
   \<and> second (prev_day dt) = second dt \<and> microsecond (prev_day dt) = microsecond dt"
  by (simp add: prev_day_def)

lemma minus_days_time:
  "hour (minus_days dt n) = hour dt \<and> minute (minus_days dt n) = minute dt
   \<and> second (minus_days dt n) = second dt \<and> microsecond (minus_days dt n) = microsecond dt"
  by (induction n arbitrary: dt) (simp_all add: prev_day_time)

lemma start_date_time:
  "hour (fst (get_date_range now)) = hour now \<and> minute (fst (get_date_range now)) = minute now
   \<and> second (fst (get_date_range now)) = second now
   \<and> microsecond (fst (get_date_range now)) = microsecond now"
  by (simp add: get_date_range_def Let_def minus_days_time)

lemma loaded_date_midnight:
  "load_scraping_state f = Inr (Some d, p) \<Longrightarrow>
   hour d = 0 \<and> minute d = 0 \<and> second d = 0 \<and> microsecond d = 0"
  by (auto simp: load_scraping_state_def split: option.splits list.splits dest: strptime_midnight)

lemma checkpoint_ignored_off_midnight:
  assumes "load_scraping_state (state_file w0) = Inr (ld, p)"
      and "hour now \<noteq> 0 \<or> minute now \<noteq> 0 \<or> second now \<noteq> 0 \<or> microsecond now \<noteq> 0"
  shows "run_pages web now (Suc fuel) w0 \<noteq> [] \<and> hd (run_pages web now (Suc fuel) w0) = 0"
proof -
  have "ld \<noteq> Some (fst (get_date_range now))"
  proof
    assume e: "ld = Some (fst (get_date_range now))"
    then have "load_scraping_state (state_file w0) = Inr (Some (fst (get_date_range now)), p)"
      using assms(1) by simp
    from loaded_date_midnight [OF this] show False
      using assms(2) start_date_time [of now] by simp
  qed
  then show ?thesis using run_pages_start [OF assms(1), of web now fuel] by simp
qed

text \<open>
  When the two dates are equal, which needs a run started at midnight, the run starts at
  the page of the checkpoint and fetches that page again.
\<close>

lemma midnight_rerun_fetches_checkpoint_page:
  "getLinks web_two_pages now_example (Suc (Suc (Suc 0))) fresh =
     (Returned [''https://patents.google.com/patent/US1'',
                ''https://patents.google.com/patent/US2'',
                ''https://patents.google.com/patent/US3''], after_window)
   \<and> state_file after_window = Some ''2024-01-01,1''
   \<and> get_date_range now_example = (start_example, end_example)
   \<and> strftime_ymd start_example = ''2024-01-01''
   \<and> hd (run_pages web_two_pages now_example (Suc 0) after_window) = 1
   \<and> 1 \<in> set (run_pages web_two_pages now_example (Suc 0) after_window)"
proof -
  have h: "run_pages web_two_pages now_example (Suc 0) after_window \<noteq> []
      \<and> hd (run_pages web_two_pages now_example (Suc 0) after_window) = 1"
    using run_pages_start [of after_window "Some start_example" 1 web_two_pages now_example 0]
    by (simp add: state_after_window load_checkpoint_example range_example)
  then have "1 \<in> set (run_pages web_two_pages now_example (Suc 0) after_window)"
    using hd_in_set by metis
  then show ?thesis
    using h by (simp add: run_two_pages state_after_window range_example ymd_example)
qed

lemma range_morning: "get_date_range now_morning = (start_morning, end_morning)"
proof -
  have a: "minus_days now_morning 5 = end_morning"
    by (simp add: now_morning_def end_morning_def prev_day_def minus_days_numeral)
  have b: "minus_days end_morning 10 = start_morning"
    by (simp add: start_morning_def end_morning_def prev_day_def minus_days_numeral)
  show ?thesis unfolding get_date_range_def Let_def a b by (rule refl)
qed

lemma ymd_morning: "strftime_ymd start_morning = ''2024-01-01''"
  by (simp add: start_morning_def strftime_ymd_def zfill_def str_nat.simps digit_char_def)

lemma morning_not_midnight: "start_example \<noteq> start_morning"
  by (simp add: start_example_def start_morning_def)

lemma run_morning:
  "state_file (snd (getLinks web_two_pages now_morning (Suc (Suc (Suc 0))) fresh))
     = Some ''2024-01-01,1''
   \<and> checkpoints (new_events fresh (snd (getLinks web_two_pages now_morning (Suc (Suc (Suc 0))) fresh)))
     = [0, 1]"
  using two_pages_then_empty [of fresh now_morning start_morning end_morning web_two_pages
          "''US1 US1 US2''" "''US3''" "''no results''" 0]
  by (simp add: state_fresh gets_fresh range_morning web_two_pages_def find_page0 find_page1
        find_page2 ymd_morning)

text \<open>
  Claim C2.  A run at 09:00 on 16 January 2024 crawls the window that starts on
  1 January, completes pages 0 and 1 and leaves the checkpoint \<^verbatim>\<open>2024-01-01,1\<close>.  A second
  run with the same clock, and so with exactly the same window, reads that checkpoint as
  midnight of 1 January, finds it different from its own start date, which carries the
  time of day, and fetches page 0 first: a page of the checkpoint is fetched again,
  where the resume of the code was to continue from the checkpoint.
\<close>

theorem checkpoint_ignored_on_rerun:
  "get_date_range now_morning = (start_morning, end_morning)
   \<and> state_file (snd (getLinks web_two_pages now_morning (Suc (Suc (Suc 0))) fresh))
       = Some ''2024-01-01,1''
   \<and> checkpoints (new_events fresh
        (snd (getLinks web_two_pages now_morning (Suc (Suc (Suc 0))) fresh))) = [0, 1]
   \<and> load_scraping_state (Some ''2024-01-01,1'') = Inr (Some start_example, 1)
   \<and> start_example \<noteq> start_morning
   \<and> run_pages web_two_pages now_morning (Suc 0)
        (snd (getLinks web_two_pages now_morning (Suc (Suc (Suc 0))) fresh)) \<noteq> []
   \<and> hd (run_pages web_two_pages now_morning (Suc 0)
        (snd (getLinks web_two_pages now_morning (Suc (Suc (Suc 0))) fresh))) = 0"
proof -
  let ?w1 = "snd (getLinks web_two_pages now_morning (Suc (Suc (Suc 0))) fresh)"
  have l: "load_scraping_state (state_file ?w1) = Inr (Some start_example, 1)"
    using run_morning by (simp add: load_checkpoint_example)
  have "run_pages web_two_pages now_morning (Suc 0) ?w1 \<noteq> []
      \<and> hd (run_pages web_two_pages now_morning (Suc 0) ?w1) = 0"
    using run_pages_start [OF l, of web_two_pages now_morning 0]
    by (simp add: range_morning morning_not_midnight)
  then show ?thesis
    using run_morning
    by (simp add: range_morning load_checkpoint_example morning_not_midnight)
qed


lemma shape_no_session: "run_shape p es \<Longrightarrow> SessionCreated \<notin> set es"
  by (induction rule: run_shape.induct) (auto simp: failed_attempts_def attempts_def)

lemma getLinks_one_session:
  "length (filter (\<lambda>ev. ev = SessionCreated) (new_events w0 (snd (getLinks web now fuel w0)))) = 1"
proof (cases "load_scraping_state (state_file w0)")
  case (Inl e)
  then show ?thesis by (simp add: getLinks_uncaught_events new_events_def)
next
  case (Inr x)
  obtain ld lp where x: "x = (ld, lp)" by (cases x)
  from getLinks_events [of w0 ld lp web now fuel] Inr x obtain es q where
    e: "new_events w0 (snd (getLinks web now fuel w0)) = SessionCreated # es @ q"
       "run_shape (if ld = Some (fst (get_date_range now)) then lp else 0) es"
       "q = [] \<or> q = [SessionQuit]"
    by blast
  have "filter (\<lambda>ev. ev = SessionCreated) es = []"
    using shape_no_session [OF e(2)] by (auto simp: filter_empty_conv)
  then show ?thesis using e(1) e(3) by auto
qed

lemma getLinks_catches_web_failure:
  "fst (getLinks web now fuel w0) \<noteq> Uncaught WebDriverException"
proof (cases "load_scraping_state (state_file w0)")
  case (Inl e)
  then have "e = ValueError"
    by (auto simp: load_scraping_state_def split: option.splits list.splits)
  then show ?thesis using Inl by (simp add: getLinks_uncaught_events)
next
  case (Inr x)
  obtain ld lp where x: "x = (ld, lp)" by (cases x)
  from getLinks_events [of w0 ld lp web now fuel WebDriverException] Inr x
  show ?thesis by blast
qed

lemma getLinks_first_page_fails:
  assumes "load_scraping_state (state_file w0) = Inr (ld, lp)"
      and "get_date_range now = (sd, ed)"
      and "p = (if ld = Some sd then lp else 0)"
      and "web (gets w0) (construct_url p sd ed) = None"
      and "web (gets w0 + 1) (construct_url p sd ed) = None"
      and "web (gets w0 + 2) (construct_url p sd ed) = None"
  shows "getLinks web now (Suc fuel) w0 =
           (Returned [],
            w0\<lparr>trace := trace w0 @ [SessionCreated, Fetched p None, Slept PAGE_LOAD_DELAY,
                    Fetched p None, Slept PAGE_LOAD_DELAY, Fetched p None, SessionQuit],
               all_patent_links := [], existing_patents := load_existing_patents w0,
               gets := gets w0 + 3\<rparr>)"
proof -
  define w2 where "w2 = w0\<lparr>trace := trace w0 @ [SessionCreated], all_patent_links := [],
                          existing_patents := load_existing_patents w0\<rparr>"
  have "page_loop web sd ed (Suc fuel) p w2 =
     (Raised WebDriverException, w2\<lparr>gets := gets w2 + 3, trace := trace w2 @ failed_attempts p\<rparr>)"
    using page_loop_failed_step [of web w2 p sd ed fuel] assms(4-6) by (simp add: w2_def)
  then show ?thesis
    using assms(1-3)
    by (simp add: getLinks_def load_existing_patents_def w2_def failed_attempts_def)
qed

text \<open>
  Claim C4, as amended.  The retry loop of getlinks_final.py makes at most three attempts
  at a page, with the fixed delay between them; a third failure is raised, the page loop
  ends, the files are as they were before the page, and \<^verbatim>\<open>getLinks\<close> catches the
  exception and returns.  No run creates a second browser session.
\<close>

theorem three_attempts_then_window_abandoned:
  "fetch_with_retry web page url 0 w =
    (case web (gets w) url of
       Some h \<Rightarrow> (Inr (findall_patents h),
                  w\<lparr>gets := gets w + 1, trace := trace w @ [Fetched page (Some h), Slept PAGE_LOAD_DELAY]\<rparr>)
     | None \<Rightarrow>
        (case web (gets w + 1) url of
           Some h \<Rightarrow> (Inr (findall_patents h),
                      w\<lparr>gets := gets w + 2,
                        trace := trace w @ [Fetched page None, Slept PAGE_LOAD_DELAY,
                                            Fetched page (Some h), Slept PAGE_LOAD_DELAY]\<rparr>)
         | None \<Rightarrow>
            (case web (gets w + 2) url of
               Some h \<Rightarrow> (Inr (findall_patents h),
                          w\<lparr>gets := gets w + 3,
                            trace := trace w @ [Fetched page None, Slept PAGE_LOAD_DELAY,
                                                Fetched page None, Slept PAGE_LOAD_DELAY,
                                                Fetched page (Some h), Slept PAGE_LOAD_DELAY]\<rparr>)
             | None \<Rightarrow> (Inl WebDriverException,
                          w\<lparr>gets := gets w + 3,
                            trace := trace w @ [Fetched page None, Slept PAGE_LOAD_DELAY,
                                                Fetched page None, Slept PAGE_LOAD_DELAY,
                                                Fetched page None]\<rparr>))))
   \<and> (web (gets w) (construct_url p sd ed) = None
       \<and> web (gets w + 1) (construct_url p sd ed) = None
       \<and> web (gets w + 2) (construct_url p sd ed) = None \<longrightarrow>
      page_loop web sd ed (Suc fuel) p w =
        (Raised WebDriverException,
         w\<lparr>gets := gets w + 3,
           trace := trace w @ [Fetched p None, Slept PAGE_LOAD_DELAY, Fetched p None,
                               Slept PAGE_LOAD_DELAY, Fetched p None]\<rparr>))
   \<and> fst (getLinks web now fuel w0) \<noteq> Uncaught WebDriverException
   \<and> length (filter (\<lambda>ev. ev = SessionCreated)
        (new_events w0 (snd (getLinks web now fuel w0)))) = 1"
  using page_loop_failed_step [of web w p sd ed fuel]
  by (simp add: fetch_with_retry_unroll getLinks_one_session getLinks_catches_web_failure
        failed_attempts_def)

lemma run_web_down:
  "getLinks web_down now_example (Suc 0) fresh =
     (Returned [],
      fresh\<lparr>gets := 3,
            trace := [SessionCreated, Fetched 0 None, Slept 15, Fetched 0 None, Slept 15,
                      Fetched 0 None, SessionQuit]\<rparr>)"
  using getLinks_first_page_fails [of fresh None 0 now_example start_example end_example 0
          web_down 0]
  by (simp add: state_fresh load_absent range_example web_down_def gets_fresh
        PAGE_LOAD_DELAY_def fresh_def load_existing_patents_def)

theorem three_attempts_then_window_abandoned_witness:
  "web_down 0 (construct_url 0 start_example end_example) = None
   \<and> web_down 1 (construct_url 0 start_example end_example) = None
   \<and> web_down 2 (construct_url 0 start_example end_example) = None
   \<and> page_loop web_down start_example end_example (Suc 0) 0 fresh =
        (Raised WebDriverException,
         fresh\<lparr>gets := 3,
               trace := [Fetched 0 None, Slept 15, Fetched 0 None, Slept 15, Fetched 0 None]\<rparr>)"
  using three_attempts_then_window_abandoned [of web_down 0 "[]" fresh 0 start_example
          end_example 0 now_example fresh]
  by (simp add: web_down_def gets_fresh trace_fresh PAGE_LOAD_DELAY_def)

theorem no_session_recovery_counterexample:
  "getLinks web_down now_example (Suc 0) fresh =
     (Returned [],
      fresh\<lparr>gets := 3,
            trace := [SessionCreated, Fetched 0 None, Slept 15, Fetched 0 None, Slept 15,
                      Fetched 0 None, SessionQuit]\<rparr>)
   \<and> web_down 3 (construct_url 0 start_example end_example) = Some ''US1''
   \<and> findall_patents ''US1'' = [''US1'']"
  by (simp add: run_web_down web_down_def findall_patents.simps match_US_def is_digit_def)

section \<open>The link file\<close>

lemma fromkeys_from_snoc:
  "fromkeys_from acc (xs @ [x]) =
     (if x \<in> set (fromkeys_from acc xs) then fromkeys_from acc xs else fromkeys_from acc xs @ [x])"
  by (simp add: fromkeys_from_def)

lemma fromkeys_from_Nil [simp]: "fromkeys_from acc [] = acc"
  by (simp add: fromkeys_from_def)

lemma fromkeys_from_append:
  "fromkeys_from acc (xs @ ys) = fromkeys_from (fromkeys_from acc xs) ys"
  by (simp add: fromkeys_from_def)

lemma set_fromkeys_from: "set (fromkeys_from acc xs) = set acc \<union> set xs"
  by (induction xs rule: rev_induct) (auto simp: fromkeys_from_snoc)

lemma distinct_fromkeys_from: "distinct acc \<Longrightarrow> distinct (fromkeys_from acc xs)"
  by (induction xs rule: rev_induct) (auto simp: fromkeys_from_snoc)

lemma fromkeys_from_filter:
  "fromkeys_from acc xs = acc @ filter (\<lambda>x. x \<notin> set acc) (fromkeys_from [] xs)"
  by (induction xs rule: rev_induct) (auto simp: fromkeys_from_snoc set_fromkeys_from)

lemma fromkeys_from_map:
  "inj f \<Longrightarrow> map f (fromkeys_from [] xs) = fromkeys_from [] (map f xs)"
proof (induction xs rule: rev_induct)
  case Nil
  then show ?case by simp
next
  case (snoc x xs)
  have "f x \<in> set (fromkeys_from [] (map f xs)) \<longleftrightarrow> x \<in> set (fromkeys_from [] xs)"
    using snoc.prems by (auto simp: set_fromkeys_from inj_def)
  then show ?case using snoc by (simp add: fromkeys_from_snoc)
qed

lemma fromkeys_from_distinct_id: "distinct xs \<Longrightarrow> fromkeys_from [] xs = xs"
  by (induction xs rule: rev_induct) (auto simp: fromkeys_from_snoc set_fromkeys_from)

lemma inj_patent_link: "inj patent_link"
  by (simp add: inj_def patent_link_def)

lemma page_links_are_fromkeys:
  "f @ filter (\<lambda>l. l \<notin> set f) (map patent_link (dict_fromkeys found)) =
   fromkeys_from f (map patent_link found)"
  using fromkeys_from_filter [of f "map patent_link found"]
        fromkeys_from_map [OF inj_patent_link, of found]
  by (simp add: dict_fromkeys_def)

lemma page_loop_log:
  "existing_patents w = set (patents_file w) \<Longrightarrow>
   \<exists>es. trace (snd (page_loop web sd ed fuel p w)) = trace w @ es
       \<and> patents_file (snd (page_loop web sd ed fuel p w)) =
           fromkeys_from (patents_file w) (map patent_link (discovered es))"
proof (induction fuel arbitrary: p w)
  case 0
  show ?case by (simp add: page_loop.simps)
next
  case (Suc fuel)
  show ?case
  proof (cases rule: fetch_cases [of web p "construct_url p sd ed" w])
    case (ok k h)
    show ?thesis
    proof (cases "findall_patents h = []")
      case True
      then show ?thesis using ok
        by (intro exI [of _ "attempts p k h"]) (simp add: page_loop.simps discovered_attempts)
    next
      case False
      define a where "a = w\<lparr>gets := gets w + Suc k, trace := trace w @ attempts p k h\<rparr>"
      define w5 where "w5 = process_page sd p (findall_patents h) a"
      have ex: "existing_patents a = set (patents_file a)" "patents_file a = patents_file w"
        using Suc.prems by (simp_all add: a_def)
      have f5: "patents_file w5 = fromkeys_from (patents_file w) (map patent_link (findall_patents h))"
        using ex page_links_are_fromkeys [of "patents_file w" "findall_patents h"]
        by (simp add: w5_def process_page_effect)
      have e5: "existing_patents w5 = set (patents_file w5)"
        using ex by (simp add: w5_def process_page_effect del: set_filter)
      have t5: "trace w5 = trace w @ attempts p k h
          @ [Appended p (filter (\<lambda>l. l \<notin> existing_patents a)
                 (map patent_link (dict_fromkeys (findall_patents h)))),
             Checkpointed p, Slept BETWEEN_PAGES_DELAY]"
        by (simp add: w5_def process_page_effect a_def)
      have step: "page_loop web sd ed (Suc fuel) p w = page_loop web sd ed fuel (p + 1) w5"
        using ok False by (simp add: page_loop.simps w5_def a_def)
      from Suc.IH [OF e5, of "p + 1"] obtain es where
        es: "trace (snd (page_loop web sd ed fuel (p + 1) w5)) = trace w5 @ es"
            "patents_file (snd (page_loop web sd ed fuel (p + 1) w5)) =
               fromkeys_from (patents_file w5) (map patent_link (discovered es))"
        by blast
      show ?thesis
        using es step t5 f5
        by (intro exI [of _ "attempts p k h
          @ [Appended p (filter (\<lambda>l. l \<notin> existing_patents a)
                 (map patent_link (dict_fromkeys (findall_patents h)))),
             Checkpointed p, Slept BETWEEN_PAGES_DELAY] @ es"])
           (simp add: discovered_append discovered_attempts fromkeys_from_append)
    qed
  next
    case fail
    then show ?thesis
      by (intro exI [of _ "failed_attempts p"]) (simp add: page_loop.simps failed_attempts_def)
  qed
qed

lemma getLinks_log:
  assumes "link_log_ok (patents_file w0)"
  shows "\<exists>es. trace (snd (getLinks web now fuel w0)) = trace w0 @ es
       \<and> patents_file (snd (getLinks web now fuel w0)) =
           fromkeys_from (patents_file w0) (map patent_link (discovered es))"
proof (cases "load_scraping_state (state_file w0)")
  case (Inl e)
  then show ?thesis
    by (intro exI [of _ "[SessionCreated]"]) (simp add: getLinks_uncaught_events)
next
  case (Inr x)
  obtain ld lp where x: "x = (ld, lp)" by (cases x)
  obtain sd ed where r: "get_date_range now = (sd, ed)" by (cases "get_date_range now")
  define w2 where "w2 = w0\<lparr>trace := trace w0 @ [SessionCreated], all_patent_links := [],
                          existing_patents := load_existing_patents w0\<rparr>"
  define pg where "pg = (if ld = Some sd then lp else 0)"
  have "map strip (patents_file w0) = patents_file w0"
    using assms by (simp add: link_log_ok_def list_all_iff map_idI)
  then have ex: "existing_patents w2 = set (patents_file w2)"
    by (simp add: w2_def load_existing_patents_def)
  obtain oc w3 where pl: "page_loop web sd ed fuel pg w2 = (oc, w3)"
    by (cases "page_loop web sd ed fuel pg w2")
  from page_loop_log [OF ex, of web sd ed fuel pg] pl obtain es where
    es: "trace w3 = trace w2 @ es"
        "patents_file w3 = fromkeys_from (patents_file w2) (map patent_link (discovered es))"
    by auto
  have g: "getLinks web now fuel w0 =
      (case oc of OutOfFuel \<Rightarrow> (StillRunning, w3)
       | _ \<Rightarrow> (Returned (all_patent_links w3), w3\<lparr>trace := trace w3 @ [SessionQuit]\<rparr>))"
    using Inr x r pl
    by (simp add: getLinks_def w2_def pg_def load_existing_patents_def split: outcome.splits)
  show ?thesis
  proof (cases "oc = OutOfFuel")
    case True
    then show ?thesis using g es
      by (intro exI [of _ "SessionCreated # es"]) (simp add: w2_def)
  next
    case False
    then show ?thesis using g es
      by (intro exI [of _ "SessionCreated # es @ [SessionQuit]"])
         (cases oc; simp add: w2_def discovered_append)
  qed
qed

lemma digit_not_space: "is_digit c \<Longrightarrow> \<not> py_isspace c"
  by (auto simp: is_digit_def py_isspace_def)

lemma match_US_form:
  assumes "match_US s = Some m"
  shows "\<exists>ds. m = ''US'' @ ds \<and> ds \<noteq> [] \<and> (\<forall>c \<in> set ds. is_digit c)"
proof -
  obtain u s' rest where s: "s = u # s' # rest"
    using assms by (cases s; cases "tl s") (auto simp: match_US_def)
  define ds where "ds = take 11 (takeWhile is_digit rest)"
  have m: "m = ''US'' @ ds" "ds \<noteq> []"
    using assms s by (auto simp: match_US_def ds_def Let_def split: if_splits)
  have "\<forall>c \<in> set ds. is_digit c"
  proof
    fix c assume "c \<in> set ds"
    then have "c \<in> set (takeWhile is_digit rest)" unfolding ds_def by (rule in_set_takeD)
    then show "is_digit c" by (rule set_takeWhileD [THEN conjunct2])
  qed
  then show ?thesis using m by blast
qed

lemma findall_form:
  "m \<in> set (findall_patents h) \<Longrightarrow>
   \<exists>ds. m = ''US'' @ ds \<and> ds \<noteq> [] \<and> (\<forall>c \<in> set ds. is_digit c)"
proof (induction h rule: findall_patents.induct)
  case 1
  then show ?case by (simp add: findall_patents.simps)
next
  case (2 c cs)
  show ?case
  proof (cases "match_US (c # cs)")
    case None
    then show ?thesis using 2 by (simp add: findall_patents.simps)
  next
    case (Some m')
    then show ?thesis using 2 match_US_form [OF Some] by (auto simp: findall_patents.simps)
  qed
qed

lemma discovered_form:
  "m \<in> set (discovered es) \<Longrightarrow>
   \<exists>ds. m = ''US'' @ ds \<and> ds \<noteq> [] \<and> (\<forall>c \<in> set ds. is_digit c)"
  by (induction es rule: discovered.induct) (auto dest: findall_form)

lemma dropWhile_keeps: "xs \<noteq> [] \<Longrightarrow> \<not> P (hd xs) \<Longrightarrow> dropWhile P (xs @ ys) = xs @ ys"
  by (cases xs) simp_all

lemma strip_patent_link:
  assumes "ds \<noteq> []" "\<forall>c \<in> set ds. is_digit c"
  shows "strip (patent_link (''US'' @ ds)) = patent_link (''US'' @ ds)"
proof -
  have h: "\<not> py_isspace CHR ''h''" by (simp add: py_isspace_def)
  have "hd (rev ds) \<in> set ds" using assms(1) by (simp add: hd_rev)
  then have l: "\<not> py_isspace (hd (rev ds))" using assms(2) digit_not_space by blast
  have r: "rev ds \<noteq> []" using assms(1) by simp
  have "rev (patent_link (''US'' @ ds)) = rev ds @ rev (patent_link ''US'')"
    by (simp add: patent_link_def)
  then have "dropWhile py_isspace (rev (patent_link (''US'' @ ds))) = rev (patent_link (''US'' @ ds))"
    using dropWhile_keeps [of "rev ds" py_isspace "rev (patent_link ''US'')"] r l by simp
  moreover have "dropWhile py_isspace (patent_link (''US'' @ ds)) = patent_link (''US'' @ ds)"
    using h by (simp add: patent_link_def)
  ultimately show ?thesis by (simp add: strip_def)
qed

lemma link_log_ok_fromkeys:
  assumes "link_log_ok f"
  shows "link_log_ok (fromkeys_from f (map patent_link (discovered es)))"
proof -
  have "\<forall>l \<in> set (map patent_link (discovered es)). strip l = l"
  proof
    fix l assume "l \<in> set (map patent_link (discovered es))"
    then obtain m where m: "m \<in> set (discovered es)" "l = patent_link m" by auto
    from discovered_form [OF m(1)] obtain ds where
      "m = ''US'' @ ds" "ds \<noteq> []" "\<forall>c \<in> set ds. is_digit c" by blast
    then show "strip l = l" using m(2) strip_patent_link by simp
  qed
  then show ?thesis
    using assms
    by (auto simp: link_log_ok_def list_all_iff distinct_fromkeys_from set_fromkeys_from)
qed

lemma crawl_runs_log:
  "link_log_ok (patents_file w0) \<Longrightarrow>
   \<exists>es. trace (crawl_runs rs w0) = trace w0 @ es
       \<and> patents_file (crawl_runs rs w0) =
           fromkeys_from (patents_file w0) (map patent_link (discovered es))"
proof (induction rs arbitrary: w0)
  case Nil
  show ?case by simp
next
  case (Cons r rs)
  obtain web now fuel where r: "r = (web, now, fuel)" by (cases r)
  define w1 where "w1 = snd (getLinks web now fuel w0)"
  from getLinks_log [OF Cons.prems, of web now fuel] obtain e1 where
    e1: "trace w1 = trace w0 @ e1"
        "patents_file w1 = fromkeys_from (patents_file w0) (map patent_link (discovered e1))"
    by (auto simp: w1_def)
  have ok1: "link_log_ok (patents_file w1)"
    using e1(2) link_log_ok_fromkeys [OF Cons.prems] by simp
  from Cons.IH [OF ok1] obtain e2 where
    e2: "trace (crawl_runs rs w1) = trace w1 @ e2"
        "patents_file (crawl_runs rs w1) =
           fromkeys_from (patents_file w1) (map patent_link (discovered e2))"
    by blast
  show ?case
    using e1 e2 r
    by (intro exI [of _ "e1 @ e2"]) (simp add: w1_def discovered_append fromkeys_from_append)
qed

text \<open>
  Claim C3.  Over any sequence of runs that starts from a link file without repeated
  lines, patent_urls.txt is the list of the links it had followed by the links of the
  identifiers found since, each once, in the order in which each was first found; no line
  is ever written twice, and an append writes only links that are not in the set of
  existing links.
\<close>

theorem link_log_unique_in_discovery_order:
  assumes "link_log_ok (patents_file w0)"
  shows "patents_file (crawl_runs rs w0) =
           dict_fromkeys (patents_file w0
             @ map patent_link (discovered (new_events w0 (crawl_runs rs w0))))
       \<and> distinct (patents_file (crawl_runs rs w0))
       \<and> link_log_ok (patents_file (crawl_runs rs w0))
       \<and> patents_file (save_new_patents p new_patents existing w) =
           patents_file w @ filter (\<lambda>patent. patent \<notin> existing) new_patents"
proof -
  from crawl_runs_log [OF assms, of rs] obtain es where
    es: "trace (crawl_runs rs w0) = trace w0 @ es"
        "patents_file (crawl_runs rs w0) =
           fromkeys_from (patents_file w0) (map patent_link (discovered es))"
    by blast
  have ne: "new_events w0 (crawl_runs rs w0) = es"
    using es(1) by (simp add: new_events_def)
  have d: "distinct (patents_file w0)" using assms by (simp add: link_log_ok_def)
  have "dict_fromkeys (patents_file w0 @ map patent_link (discovered es)) =
        fromkeys_from (patents_file w0) (map patent_link (discovered es))"
    using fromkeys_from_distinct_id [OF d]
    by (simp add: dict_fromkeys_def fromkeys_from_append)
  moreover have "link_log_ok (patents_file (crawl_runs rs w0))"
    using es(2) link_log_ok_fromkeys [OF assms] by simp
  ultimately show ?thesis
    using es(2) ne by (simp add: link_log_ok_def save_new_patents_def Let_def)
qed

lemma find_again: "findall_patents ''US3 US4'' = [''US3'', ''US4'']"
  by (simp add: findall_patents.simps match_US_def is_digit_def)

lemma restart_loads_log:
  "after_window\<lparr>trace := trace after_window @ [SessionCreated], all_patent_links := [],
      existing_patents := load_existing_patents
         (after_window\<lparr>trace := trace after_window @ [SessionCreated], all_patent_links := []\<rparr>)\<rparr>
   = restarted"
  by (simp add: restarted_def after_window_def after_page1_def load_existing_patents_def
        strip_def py_isspace_def)

lemma step_again:
  "page_loop web_again start_example end_example (Suc 0) 1 restarted = (OutOfFuel, after_again)"
proof -
  have web: "web_again (gets restarted) (construct_url 1 start_example end_example) = Some ''US3 US4''"
    by (simp add: web_again_def)
  have pp: "process_page start_example 1 [''US3'', ''US4'']
          (restarted\<lparr>gets := gets restarted + 1,
             trace := trace restarted @ [Fetched 1 (Some ''US3 US4''), Slept PAGE_LOAD_DELAY]\<rparr>)
        = after_again"
    by (simp add: page_eval restarted_def after_window_def after_page1_def after_again_def
          ymd_example del: set_filter)
  show ?thesis
    using page_loop_nonempty_step [of web_again restarted 1 start_example end_example
            "''US3 US4''" "[''US3'', ''US4'']" 0] web find_again pp
    by (simp add: page_loop.simps)
qed

lemma run_again:
  "getLinks web_again now_example (Suc 0) after_window = (StillRunning, after_again)"
proof -
  have st: "state_file restarted = Some ''2024-01-01,1''"
    by (simp add: restarted_def state_after_window)
  show ?thesis
    unfolding getLinks_def range_example Let_def prod.case restart_loads_log st
    by (simp add: load_checkpoint_example step_again)
qed

lemma log_fresh: "link_log_ok (patents_file fresh)"
  by (simp add: fresh_def link_log_ok_def)

lemma two_runs:
  "crawl_runs [(web_two_pages, now_example, Suc (Suc (Suc 0))), (web_again, now_example, Suc 0)] fresh
     = after_again"
  by (simp add: run_two_pages run_again)

declare crawl_runs.simps [simp del]

lemma log_after_again:
  "patents_file after_again =
     [''https://patents.google.com/patent/US1'', ''https://patents.google.com/patent/US2'',
      ''https://patents.google.com/patent/US3'', ''https://patents.google.com/patent/US4'']"
  by (simp add: after_again_def)

lemma discovered_two_runs:
  "discovered (new_events fresh after_again) =
     [''US1'', ''US1'', ''US2'', ''US3'', ''US3'', ''US4'']"
  by (simp add: new_events_def trace_fresh after_again_def restarted_def trace_after_window
        find_page0 find_page1 find_page2 find_again)

theorem link_log_unique_in_discovery_order_witness:
  "link_log_ok (patents_file fresh)
   \<and> discovered (new_events fresh
        (crawl_runs [(web_two_pages, now_example, Suc (Suc (Suc 0))),
                     (web_again, now_example, Suc 0)] fresh))
      = [''US1'', ''US1'', ''US2'', ''US3'', ''US3'', ''US4'']
   \<and> patents_file
        (crawl_runs [(web_two_pages, now_example, Suc (Suc (Suc 0))),
                     (web_again, now_example, Suc 0)] fresh)
      = [''https://patents.google.com/patent/US1'', ''https://patents.google.com/patent/US2'',
         ''https://patents.google.com/patent/US3'', ''https://patents.google.com/patent/US4'']
   \<and> patents_file
        (crawl_runs [(web_two_pages, now_example, Suc (Suc (Suc 0))),
                     (web_again, now_example, Suc 0)] fresh)
      = dict_fromkeys (patents_file fresh @ map patent_link
          (discovered (new_events fresh
             (crawl_runs [(web_two_pages, now_example, Suc (Suc (Suc 0))),
                          (web_again, now_example, Suc 0)] fresh))))"
  using link_log_unique_in_discovery_order
          [of fresh "[(web_two_pages, now_example, Suc (Suc (Suc 0))),
                      (web_again, now_example, Suc 0)]" 0 "[]" "{}" fresh]
  by (simp add: log_fresh two_runs log_after_again discovered_two_runs)

section \<open>The content store\<close>

lemma pins_of_append: "pins_of (xs @ ys) = pins_of xs @ pins_of ys"
  by (induction xs rule: pins_of.induct) simp_all

lemma local_writes_append: "local_writes (xs @ ys) = local_writes xs @ local_writes ys"
  by (induction xs rule: local_writes.induct) simp_all

lemma map_of_dict_set: "map_of (dict_set d k v) = (map_of d)(k \<mapsto> v)"
  by (induction d k v rule: dict_set.induct) auto

lemma dict_get_dict_set: "dict_get (dict_set d k v) k dflt = v"
  by (simp add: dict_get_def map_of_dict_set)

lemma format_patent_no_hash: "map_of (format_patent patent_data patent_number) ''ipfs_hash'' = None"
  by (simp add: format_patent_def)

lemma with_hash_differs:
  "dict_set (format_patent patent_data patent_number) ''ipfs_hash'' v
     \<noteq> format_patent patent_data patent_number"
proof
  assume "dict_set (format_patent patent_data patent_number) ''ipfs_hash'' v
     = format_patent patent_data patent_number"
  then have "map_of (dict_set (format_patent patent_data patent_number) ''ipfs_hash'' v) ''ipfs_hash''
     = map_of (format_patent patent_data patent_number) ''ipfs_hash''" by simp
  then show False by (simp add: map_of_dict_set format_patent_no_hash)
qed

lemma verify_frame:
  "blocks (verify_ipfs_upload e h st) = blocks st
   \<and> pinned (verify_ipfs_upload e h st) = pinned st
   \<and> json_files (verify_ipfs_upload e h st) = json_files st
   \<and> pins_of (calls (verify_ipfs_upload e h st)) = pins_of (calls st)
   \<and> local_writes (calls (verify_ipfs_upload e h st)) = local_writes (calls st)"
  by (simp add: verify_ipfs_upload_def send_def Let_def pins_of_append local_writes_append
        split: option.splits)

lemma pin_and_mirror_frame:
  "blocks (snd (pin_and_mirror e h n st)) = blocks st
   \<and> json_files (snd (pin_and_mirror e h n st)) = json_files st
   \<and> pins_of (calls (snd (pin_and_mirror e h n st))) = pins_of (calls st) @ [h]
   \<and> local_writes (calls (snd (pin_and_mirror e h n st))) = local_writes (calls st)
   \<and> pinned (snd (pin_and_mirror e h n st)) \<subseteq> pinned st \<union> {h}
   \<and> (fst (pin_and_mirror e h n st) = [] \<or> fst (pin_and_mirror e h n st) = h)"
  by (auto simp add: pin_and_mirror_def send_def Let_def pins_of_append local_writes_append
        verify_frame)

lemma pin_and_mirror_pinned:
  "pinned (snd (pin_and_mirror e h n st)) =
     (if http e (requests st) = Ok200 then pinned st \<union> {h} else pinned st)"
  by (auto simp add: pin_and_mirror_def send_def Let_def verify_frame)


lemma save_and_upload_stored:
  assumes "fst (save_and_upload e patent_data patent_number st) \<noteq> []"
  shows "http e (requests st) = Ok200 \<and> http e (requests st + 1) = Ok200
       \<and> fst (save_and_upload e patent_data patent_number st) =
           cid e (dict_set (format_patent patent_data patent_number) ''ipfs_hash''
                    (PStr (cid e (format_patent patent_data patent_number))))
       \<and> blocks (snd (save_and_upload e patent_data patent_number st))
           (cid e (dict_set (format_patent patent_data patent_number) ''ipfs_hash''
                    (PStr (cid e (format_patent patent_data patent_number)))))
         = Some (dict_set (format_patent patent_data patent_number) ''ipfs_hash''
                    (PStr (cid e (format_patent patent_data patent_number))))
       \<and> pins_of (calls (snd (save_and_upload e patent_data patent_number st))) =
           pins_of (calls st)
           @ [cid e (dict_set (format_patent patent_data patent_number) ''ipfs_hash''
                    (PStr (cid e (format_patent patent_data patent_number))))]
       \<and> pinned (snd (save_and_upload e patent_data patent_number st)) \<subseteq>
           pinned st \<union> {cid e (dict_set (format_patent patent_data patent_number) ''ipfs_hash''
                    (PStr (cid e (format_patent patent_data patent_number))))}"
proof -
  define doc1 where "doc1 = format_patent patent_data patent_number"
  define doc2 where "doc2 = dict_set doc1 ''ipfs_hash'' (PStr (cid e doc1))"
  have r1: "http e (requests st) = Ok200"
    using assms by (auto simp: save_and_upload_def Let_def split: if_splits)
  have r2: "http e (requests st + 1) = Ok200"
    using assms r1 by (auto simp: save_and_upload_def Let_def send_def split: if_splits)
  define st3 where "st3 =
     st\<lparr>requests := requests st + 2,
        blocks := (blocks st)(cid e doc1 \<mapsto> doc1, cid e doc2 \<mapsto> doc2),
        json_files := (json_files st)(local_path patent_number \<mapsto> (2, doc2)),
        calls := calls st @ [IpfsAdd doc1, IpfsAdd doc2, LocalWrite (local_path patent_number) 2 doc2]\<rparr>"
  have eq: "save_and_upload e patent_data patent_number st =
              pin_and_mirror e (cid e doc2) patent_number st3"
    using r1 r2
    by (simp add: save_and_upload_def Let_def send_def st3_def doc1_def doc2_def)
  note f = pin_and_mirror_frame [of e "cid e doc2" patent_number st3]
  have "fst (pin_and_mirror e (cid e doc2) patent_number st3) = cid e doc2"
    using assms eq f by auto
  moreover have "blocks st3 (cid e doc2) = Some doc2" by (simp add: st3_def)
  moreover have "pins_of (calls st3) = pins_of (calls st)" by (simp add: st3_def pins_of_append)
  moreover have "pinned st3 = pinned st" by (simp add: st3_def)
  ultimately show ?thesis
    using r1 r2 eq f unfolding doc1_def [symmetric] doc2_def [symmetric] by simp
qed

lemma save_and_upload_pinned:
  assumes "fst (save_and_upload e patent_data patent_number st) \<noteq> []"
  shows "pinned (snd (save_and_upload e patent_data patent_number st)) =
           (if http e (requests st + 2) = Ok200
            then pinned st \<union> {cid e (dict_set (format_patent patent_data patent_number) ''ipfs_hash''
                    (PStr (cid e (format_patent patent_data patent_number))))}
            else pinned st)"
proof -
  define doc1 where "doc1 = format_patent patent_data patent_number"
  define doc2 where "doc2 = dict_set doc1 ''ipfs_hash'' (PStr (cid e doc1))"
  have r1: "http e (requests st) = Ok200"
    using assms by (auto simp: save_and_upload_def Let_def split: if_splits)
  have r2: "http e (requests st + 1) = Ok200"
    using assms r1 by (auto simp: save_and_upload_def Let_def send_def split: if_splits)
  define st3 where "st3 =
     st\<lparr>requests := requests st + 2,
        blocks := (blocks st)(cid e doc1 \<mapsto> doc1, cid e doc2 \<mapsto> doc2),
        json_files := (json_files st)(local_path patent_number \<mapsto> (2, doc2)),
        calls := calls st @ [IpfsAdd doc1, IpfsAdd doc2, LocalWrite (local_path patent_number) 2 doc2]\<rparr>"
  have eq: "save_and_upload e patent_data patent_number st =
              pin_and_mirror e (cid e doc2) patent_number st3"
    using r1 r2
    by (simp add: save_and_upload_def Let_def send_def st3_def doc1_def doc2_def)
  have "pinned st3 = pinned st" "requests st3 = requests st + 2" by (simp_all add: st3_def)
  then show ?thesis
    using eq pin_and_mirror_pinned [of e "cid e doc2" patent_number st3]
    unfolding doc1_def [symmetric] doc2_def [symmetric] by simp
qed

text \<open>
  Claim C1.  Whenever \<^verbatim>\<open>save_and_upload\<close> returns an address, that address is the one
  of the second upload; the document stored under it carries, in its field
  \<^verbatim>\<open>ipfs_hash\<close>, the address of the first upload, whose document has no such field;
  the one pin request of the call is for the second address, which is the third request of
  the call; the second address is pinned exactly when that request is answered with
  status 200, an answer the code does not read, and no other address is pinned by the
  call, so the first address is not; and the two addresses differ when the store gives
  different documents different addresses.
\<close>

theorem stored_record_reports_first_address:
  assumes "fst (save_and_upload e patent_data patent_number st) \<noteq> []"
  shows "(let doc1 = format_patent patent_data patent_number;
              addr1 = cid e doc1;
              doc2 = dict_set doc1 ''ipfs_hash'' (PStr addr1);
              addr2 = cid e doc2;
              st' = snd (save_and_upload e patent_data patent_number st)
          in map_of doc1 ''ipfs_hash'' = None
           \<and> fst (save_and_upload e patent_data patent_number st) = addr2
           \<and> blocks st' addr2 = Some doc2
           \<and> dict_get doc2 ''ipfs_hash'' PNone = PStr addr1
           \<and> pins_of (calls st') = pins_of (calls st) @ [addr2]
           \<and> pinned st' =
               (if http e (requests st + 2) = Ok200 then pinned st \<union> {addr2} else pinned st)
           \<and> (http e (requests st + 2) = Ok200 \<longrightarrow> addr2 \<in> pinned st')
           \<and> pinned st' \<subseteq> pinned st \<union> {addr2}
           \<and> doc2 \<noteq> doc1
           \<and> (inj (cid e) \<longrightarrow> addr1 \<noteq> addr2))"
  using save_and_upload_stored [OF assms] save_and_upload_pinned [OF assms]
        with_hash_differs [of patent_data patent_number
           "PStr (cid e (format_patent patent_data patent_number))"]
  by (auto simp: Let_def format_patent_no_hash dict_get_dict_set inj_def)

lemma unary_prefix_inj:
  "replicate n CHR ''1'' @ CHR ''0'' # x = replicate m CHR ''1'' @ CHR ''0'' # y \<Longrightarrow>
   n = m \<and> x = y"
proof (induction n arbitrary: m)
  case 0
  then show ?case by (cases m) simp_all
next
  case (Suc n)
  then show ?case by (cases m) simp_all
qed

lemma enc_str_inj: "enc_str s @ r = enc_str t @ r' \<Longrightarrow> s = t \<and> r = r'"
proof -
  assume a: "enc_str s @ r = enc_str t @ r'"
  then have "replicate (length s) CHR ''1'' @ CHR ''0'' # (s @ r)
           = replicate (length t) CHR ''1'' @ CHR ''0'' # (t @ r')"
    by (simp add: enc_str_def)
  then have "length s = length t \<and> s @ r = t @ r'" by (rule unary_prefix_inj)
  then show ?thesis by (auto simp: append_eq_append_conv)
qed

lemma enc_strs_inj: "enc_strs xs @ r = enc_strs ys @ r' \<Longrightarrow> xs = ys \<and> r = r'"
proof (induction xs arbitrary: ys)
  case Nil
  then show ?case by (cases ys) simp_all
next
  case (Cons x xs)
  show ?case
  proof (cases ys)
    case Nil
    then show ?thesis using Cons.prems by simp
  next
    case (Cons y ys')
    then have "enc_str x @ (enc_strs xs @ r) = enc_str y @ (enc_strs ys' @ r')"
      using Cons.prems by simp
    then have "x = y \<and> enc_strs xs @ r = enc_strs ys' @ r'" by (rule enc_str_inj)
    then show ?thesis using Cons.IH [of ys'] Cons by simp
  qed
qed

lemma enc_val_inj: "enc_val v @ r = enc_val v' @ r' \<Longrightarrow> v = v' \<and> r = r'"
  by (cases v; cases v') (auto dest: enc_str_inj enc_strs_inj)

lemma enc_dict_inj: "enc_dict d @ r = enc_dict d' @ r' \<Longrightarrow> d = d' \<and> r = r'"
proof (induction d arbitrary: d')
  case Nil
  then show ?case by (cases d') auto
next
  case (Cons kv d)
  obtain k v where kv: "kv = (k, v)" by (cases kv)
  show ?case
  proof (cases d')
    case Nil
    then show ?thesis using Cons.prems kv by simp
  next
    case c: (Cons kv' d'')
    obtain k' v' where kv': "kv' = (k', v')" by (cases kv')
    have "enc_str k @ (enc_val v @ enc_dict d @ r) = enc_str k' @ (enc_val v' @ enc_dict d'' @ r')"
      using Cons.prems kv kv' c by simp
    then have 1: "k = k'" "enc_val v @ (enc_dict d @ r) = enc_val v' @ (enc_dict d'' @ r')"
      using enc_str_inj by blast+
    then have 2: "v = v'" "enc_dict d @ r = enc_dict d'' @ r'"
      using enc_val_inj by blast+
    then show ?thesis using Cons.IH [of d''] 1 kv kv' c by simp
  qed
qed

lemma inj_enc_dict: "inj enc_dict"
proof (rule injI)
  fix d d' assume "enc_dict d = enc_dict d'"
  then have "enc_dict d @ [] = enc_dict d' @ []" by simp
  then show "d = d'" using enc_dict_inj by blast
qed

section \<open>Evaluating the ingestion example\<close>

declare enc_dict.simps [simp del]

lemma enc_dict_nonempty: "enc_dict d \<noteq> []"
  by (cases d) (auto simp: enc_dict.simps)

lemma clean_url_example: "clean_url url_example = url_example"
  by (simp add: clean_url_def url_example_def strip_def py_isspace_def)

lemma search_example: "search_patent url_example = Some ''US1''"
  by (simp add: url_example_def is_AZ09_def)

lemma search_slash_example: "search_patent_slash url_example = Some ''US1''"
  by (simp add: url_example_def Let_def)

lemma strip_lines_widget: "strip_lines ''Widget'' = ''Widget''"
  by (simp add: strip_lines_def splitlines_def is_linebreak_def strip_def py_isspace_def)

lemma strip_lines_claim: "strip_lines ''1. A claim.'' = ''1. A claim.''"
  by (simp add: strip_lines_def splitlines_def is_linebreak_def strip_def py_isspace_def)

lemma clean_example:
  "clean_html_content (Some page_example) =
     Some [(''patent_title'', PStr ''Widget''), (''abstract'', PStr ''N/A''),
           (''inventor_name'', PStr ''Ada''), (''assignee_name'', PStr ''Acme''),
           (''filing_date'', PStr ''N/A''), (''claims_text'', PStr ''1. A claim.''),
           (''patent_text'', PStr ''Widget'')]"
  by (simp add: clean_html_content_def page_example_def text_or_na_def strip_lines_widget
        strip_lines_claim Let_def strip_def py_isspace_def)

lemma extract_example:
  "extract_patent_info_with_llm (Some page_example) url_example =
     Some (dict_set record_example ''publication_number'' (PStr ''US1''))"
  by (simp add: extract_patent_info_with_llm_def clean_example search_slash_example
        dict_get_def dict_pop_def record_example_def Let_def)
     (simp add: url_example_def)

lemma record_example_number:
  "dict_set record_example ''publication_number'' (PStr ''US1'') = record_example"
  by (simp add: record_example_def)

lemma format_example: "format_patent record_example ''US1'' = formatted_example"
  by (simp add: format_patent_def record_example_def formatted_example_def dict_get_def)

section \<open>Properties of the ingestion pipeline\<close>

lemma save_and_upload_all_ok:
  assumes "\<And>n. http e n = Ok200"
  shows "fst (save_and_upload e patent_data patent_number st) =
           cid e (dict_set (format_patent patent_data patent_number) ''ipfs_hash''
                    (PStr (cid e (format_patent patent_data patent_number))))"
  by (simp add: save_and_upload_def pin_and_mirror_def send_def Let_def assms)

lemma http_example: "http env_example n = Ok200"
  by (simp add: env_example_def)

lemma cid_example: "cid env_example = enc_dict"
  by (simp add: env_example_def)

lemma upload_example:
  "fst (save_and_upload env_example record_example ''US1'' empty_store) =
     enc_dict (dict_set formatted_example ''ipfs_hash'' (PStr (enc_dict formatted_example)))"
  using save_and_upload_all_ok [of env_example record_example "''US1''" empty_store]
  by (simp add: http_example cid_example format_example)

lemma pinned_empty_store: "pinned empty_store = {}"
  by (simp add: empty_store_def)

theorem stored_record_reports_first_address_witness:
  "fst (save_and_upload env_example record_example ''US1'' empty_store) \<noteq> []
   \<and> inj (cid env_example)
   \<and> http env_example (requests empty_store + 2) = Ok200
   \<and> pinned (snd (save_and_upload env_example record_example ''US1'' empty_store)) =
       {enc_dict (dict_set formatted_example ''ipfs_hash'' (PStr (enc_dict formatted_example)))}
   \<and> format_patent record_example ''US1'' = formatted_example
   \<and> fst (save_and_upload env_example record_example ''US1'' empty_store) =
       enc_dict (dict_set formatted_example ''ipfs_hash'' (PStr (enc_dict formatted_example)))
   \<and> blocks (snd (save_and_upload env_example record_example ''US1'' empty_store))
        (enc_dict (dict_set formatted_example ''ipfs_hash'' (PStr (enc_dict formatted_example))))
      = Some (dict_set formatted_example ''ipfs_hash'' (PStr (enc_dict formatted_example)))
   \<and> dict_get (dict_set formatted_example ''ipfs_hash'' (PStr (enc_dict formatted_example)))
        ''ipfs_hash'' PNone = PStr (enc_dict formatted_example)
   \<and> enc_dict formatted_example
      \<noteq> enc_dict (dict_set formatted_example ''ipfs_hash'' (PStr (enc_dict formatted_example)))"
  using stored_record_reports_first_address [of env_example record_example "''US1''" empty_store]
  by (simp add: upload_example enc_dict_nonempty cid_example inj_enc_dict format_example Let_def
        http_example pinned_empty_store)

text \<open>
  Claim C8.  \<^verbatim>\<open>clean_html_content\<close> and \<^verbatim>\<open>extract_patent_info_with_llm\<close> return no
  record exactly when the page could not be rendered.  For a rendered page, the title,
  the abstract, the inventor and the filing date are the stripped text of their element,
  or \<^verbatim>\<open>N/A\<close> when the element is missing; the assignee is the current assignee, else
  the original assignee, else \<^verbatim>\<open>N/A\<close>.
\<close>

theorem extraction_fails_only_without_page:
  "(clean_html_content rendered = None \<longleftrightarrow> rendered = None)
   \<and> (extract_patent_info_with_llm rendered url = None \<longleftrightarrow> rendered = None)
   \<and> (rendered = Some soup \<longrightarrow>
        (\<exists>d. clean_html_content rendered = Some d
          \<and> dict_get d ''patent_title'' PNone =
              (case title_span soup of Some t \<Rightarrow> PStr (strip t) | None \<Rightarrow> PStr ''N/A'')
          \<and> dict_get d ''abstract'' PNone =
              (case abstract_section soup of Some t \<Rightarrow> PStr (strip t) | None \<Rightarrow> PStr ''N/A'')
          \<and> dict_get d ''inventor_name'' PNone =
              (case inventor_dd soup of Some t \<Rightarrow> PStr (strip t) | None \<Rightarrow> PStr ''N/A'')
          \<and> dict_get d ''filing_date'' PNone =
              (case filingDate_time soup of Some t \<Rightarrow> PStr (strip t) | None \<Rightarrow> PStr ''N/A'')
          \<and> dict_get d ''assignee_name'' PNone =
              (case assigneeCurrent_dd soup of
                 Some t \<Rightarrow> PStr (strip t)
               | None \<Rightarrow>
                   (case assigneeOriginal_dd soup of
                      Some t \<Rightarrow> PStr (strip t)
                    | None \<Rightarrow> PStr ''N/A''))))"
  by (auto simp: clean_html_content_def extract_patent_info_with_llm_def Let_def dict_get_def
        text_or_na_def split: option.splits)

lemma page_example_fields:
  "abstract_section page_example = None" "assigneeCurrent_dd page_example = None"
  "assigneeOriginal_dd page_example = Some ''Acme''"
  by (simp_all add: page_example_def)

theorem extraction_fails_only_without_page_witness:
  "clean_html_content (Some page_example) =
     Some [(''patent_title'', PStr ''Widget''), (''abstract'', PStr ''N/A''),
           (''inventor_name'', PStr ''Ada''), (''assignee_name'', PStr ''Acme''),
           (''filing_date'', PStr ''N/A''), (''claims_text'', PStr ''1. A claim.''),
           (''patent_text'', PStr ''Widget'')]
   \<and> abstract_section page_example = None
   \<and> assigneeCurrent_dd page_example = None
   \<and> assigneeOriginal_dd page_example = Some ''Acme''
   \<and> extract_patent_info_with_llm (Some page_example) url_example \<noteq> None
   \<and> clean_html_content None = None"
  using extraction_fails_only_without_page [of "Some page_example" url_example page_example]
        extraction_fails_only_without_page [of None url_example page_example]
  by (simp add: clean_example page_example_fields)

lemma save_and_upload_files:
  "json_files (snd (save_and_upload e pd pn st)) =
     (if http e (requests st) = Ok200 \<and> http e (requests st + 1) = Ok200
      then (json_files st)(local_path pn \<mapsto>
             (2, dict_set (format_patent pd pn) ''ipfs_hash'' (PStr (cid e (format_patent pd pn)))))
      else json_files st)
   \<and> local_writes (calls (snd (save_and_upload e pd pn st))) =
       local_writes (calls st) @
       (if http e (requests st) = Ok200 \<and> http e (requests st + 1) = Ok200
        then [(local_path pn, 2,
               dict_set (format_patent pd pn) ''ipfs_hash'' (PStr (cid e (format_patent pd pn))))]
        else [])"
  by (simp add: save_and_upload_def send_def Let_def pin_and_mirror_frame local_writes_append)

lemma process_url_skip:
  "search_patent (clean_url url) = Some pn \<Longrightarrow> json_files st (local_path pn) \<noteq> None \<Longrightarrow>
   process_url e url st = st\<lparr>skipped_patents := skipped_patents st @ [pn]\<rparr>"
  by (auto simp: process_url_def Let_def)

lemma process_url_fresh:
  assumes "search_patent (clean_url url) = Some pn"
      and "json_files st (local_path pn) = None"
      and "extract_patent_info_with_llm (render e (clean_url url)) (clean_url url) = Some extracted"
  shows "json_files (process_url e url st) =
           (json_files st)(local_path pn \<mapsto>
              (if \<not> index_fails e (dumps e (dict_set extracted ''publication_number'' (PStr pn)))
                  \<and> http e (requests st) = Ok200 \<and> http e (requests st + 1) = Ok200
               then (2, dict_set (format_patent (dict_set extracted ''publication_number'' (PStr pn)) pn)
                          ''ipfs_hash''
                          (PStr (cid e (format_patent
                                   (dict_set extracted ''publication_number'' (PStr pn)) pn))))
               else (4, dict_set extracted ''publication_number'' (PStr pn))))
       \<and> local_writes (calls (process_url e url st)) =
           local_writes (calls st)
           @ (local_path pn, 4, dict_set extracted ''publication_number'' (PStr pn))
           # (if \<not> index_fails e (dumps e (dict_set extracted ''publication_number'' (PStr pn)))
                  \<and> http e (requests st) = Ok200 \<and> http e (requests st + 1) = Ok200
              then [(local_path pn, 2,
                     dict_set (format_patent (dict_set extracted ''publication_number'' (PStr pn)) pn)
                          ''ipfs_hash''
                          (PStr (cid e (format_patent
                                   (dict_set extracted ''publication_number'' (PStr pn)) pn))))]
              else [])"
  using assms
  by (simp add: process_url_def Let_def save_and_upload_files local_writes_append)

lemma process_url_other_files:
  assumes "search_patent (clean_url url) = Some pn" and "path \<noteq> local_path pn"
  shows "json_files (process_url e url st) path = json_files st path"
  using assms
  by (simp add: process_url_def Let_def save_and_upload_files split: option.splits)

lemma extract_Some:
  "rendered \<noteq> None \<Longrightarrow> \<exists>x. extract_patent_info_with_llm rendered url = Some x"
  by (auto simp: extract_patent_info_with_llm_def clean_html_content_def Let_def
           split: option.splits)

lemma process_url_leaves_file:
  assumes "search_patent (clean_url url) = Some pn" and "render e (clean_url url) \<noteq> None"
  shows "json_files (process_url e url st) (local_path pn) \<noteq> None"
proof (cases "json_files st (local_path pn)")
  case None
  obtain x where "extract_patent_info_with_llm (render e (clean_url url)) (clean_url url) = Some x"
    using extract_Some [OF assms(2)] by blast
  from process_url_fresh [OF assms(1) None this] show ?thesis by simp
next
  case (Some a)
  then show ?thesis using process_url_skip [OF assms(1), of st e] by simp
qed

lemma process_urls_skip:
  "\<forall>u \<in> set urls. \<exists>pn. search_patent (clean_url u) = Some pn \<and> json_files st (local_path pn) \<noteq> None \<Longrightarrow>
   process_urls e urls st =
     st\<lparr>skipped_patents := skipped_patents st @ map (\<lambda>u. the (search_patent (clean_url u))) urls\<rparr>"
proof (induction urls arbitrary: st)
  case Nil
  show ?case by simp
next
  case (Cons u urls)
  then obtain pn where pn: "search_patent (clean_url u) = Some pn" "json_files st (local_path pn) \<noteq> None"
    by auto
  have s: "process_url e u st = st\<lparr>skipped_patents := skipped_patents st @ [pn]\<rparr>"
    using process_url_skip [OF pn] .
  have "\<forall>u \<in> set urls. \<exists>pn'. search_patent (clean_url u) = Some pn'
           \<and> json_files (st\<lparr>skipped_patents := skipped_patents st @ [pn]\<rparr>) (local_path pn') \<noteq> None"
    using Cons.prems by simp
  from Cons.IH [OF this] show ?case using s pn by simp
qed

text \<open>
  Claim C7.  A URL whose identifier already has its file under patent_json is skipped:
  processing it changes nothing but the list of skipped identifiers, so no page is
  rendered, nothing is embedded or indexed, and no request goes to the content store.
  The same holds for a whole list of such URLs, and for a URL processed a second time
  after a run that rendered its page.
\<close>

theorem existing_record_is_skipped:
  "(search_patent (clean_url url) = Some pn \<and> json_files st (local_path pn) \<noteq> None \<longrightarrow>
      process_url e url st = st\<lparr>skipped_patents := skipped_patents st @ [pn]\<rparr>)
   \<and> ((\<forall>u \<in> set urls. \<exists>pn. search_patent (clean_url u) = Some pn
                             \<and> json_files st (local_path pn) \<noteq> None) \<longrightarrow>
      process_urls e urls st =
        st\<lparr>skipped_patents :=
             skipped_patents st @ map (\<lambda>u. the (search_patent (clean_url u))) urls\<rparr>)
   \<and> (search_patent (clean_url url) = Some pn \<and> render e (clean_url url) \<noteq> None \<longrightarrow>
      process_url e' url (process_url e url st) =
        (process_url e url st)\<lparr>skipped_patents :=
                                 skipped_patents (process_url e url st) @ [pn]\<rparr>)"
  using process_url_skip [of url pn st e] process_urls_skip [of urls st e]
        process_url_skip [of url pn "process_url e url st" e']
        process_url_leaves_file [of url pn e st]
  by blast

lemma search_clean_example: "search_patent (clean_url url_example) = Some ''US1''"
  by (simp add: clean_url_example search_example)

lemma render_example: "render env_example u = Some page_example"
  by (simp add: env_example_def)

lemma store_with_record_file: "json_files store_with_record (local_path ''US1'') \<noteq> None"
  by (simp add: store_with_record_def)

theorem existing_record_is_skipped_witness:
  "search_patent (clean_url url_example) = Some ''US1''
   \<and> json_files store_with_record (local_path ''US1'') \<noteq> None
   \<and> process_url env_example url_example store_with_record =
       store_with_record\<lparr>skipped_patents := skipped_patents store_with_record @ [''US1'']\<rparr>
   \<and> calls (process_url env_example url_example store_with_record) = []
   \<and> requests (process_url env_example url_example store_with_record) = 0
   \<and> chroma (process_url env_example url_example store_with_record) = []
   \<and> render env_example (clean_url url_example) \<noteq> None
   \<and> process_url env_example url_example (process_url env_example url_example empty_store) =
       (process_url env_example url_example empty_store)
         \<lparr>skipped_patents :=
            skipped_patents (process_url env_example url_example empty_store) @ [''US1'']\<rparr>"
  using existing_record_is_skipped [of url_example "''US1''" store_with_record env_example "[]"
          env_example]
        existing_record_is_skipped [of url_example "''US1''" empty_store env_example "[]"
          env_example]
  by (simp add: search_clean_example store_with_record_file render_example)
     (simp add: store_with_record_def empty_store_def)

text \<open>
  Claim C9, as amended.  Processing a URL touches no file but the one of its own
  identifier.  When that file exists, it is left as it is.  When it does not and the page
  is extracted, \<^verbatim>\<open>main\<close> writes the record once, before embedding; embedding leaves the
  file as written; and \<^verbatim>\<open>save_and_upload\<close>, when both of its uploads are answered with
  status 200, writes the same path once more, with the formatted record that carries the
  first address in \<^verbatim>\<open>ipfs_hash\<close>; otherwise the file stays as \<^verbatim>\<open>main\<close> wrote it.
\<close>

theorem local_record_written_then_replaced:
  assumes "search_patent (clean_url url) = Some pn"
  shows "(path \<noteq> local_path pn \<longrightarrow> json_files (process_url e url st) path = json_files st path)
       \<and> (json_files st (local_path pn) \<noteq> None \<longrightarrow>
            json_files (process_url e url st) = json_files st
          \<and> local_writes (calls (process_url e url st)) = local_writes (calls st))
       \<and> (json_files st (local_path pn) = None
            \<and> extract_patent_info_with_llm (render e (clean_url url)) (clean_url url) = Some extracted
          \<longrightarrow>
            (let patent_data = dict_set extracted ''publication_number'' (PStr pn);
                 with_hash = dict_set (format_patent patent_data pn) ''ipfs_hash''
                               (PStr (cid e (format_patent patent_data pn)));
                 uploaded = (\<not> index_fails e (dumps e patent_data)
                               \<and> http e (requests st) = Ok200
                               \<and> http e (requests st + 1) = Ok200)
             in local_writes (calls (process_url e url st)) =
                  local_writes (calls st) @ (local_path pn, 4, patent_data)
                    # (if uploaded then [(local_path pn, 2, with_hash)] else [])
              \<and> json_files (process_url e url st) =
                  (json_files st)(local_path pn \<mapsto>
                     (if uploaded then (2, with_hash) else (4, patent_data)))))"
proof (intro conjI impI)
  assume "path \<noteq> local_path pn"
  then show "json_files (process_url e url st) path = json_files st path"
    using process_url_other_files [OF assms] by simp
next
  assume a: "json_files st (local_path pn) \<noteq> None"
  show "json_files (process_url e url st) = json_files st"
    using process_url_skip [OF assms a, of e] by simp
  show "local_writes (calls (process_url e url st)) = local_writes (calls st)"
    using process_url_skip [OF assms a, of e] by simp
next
  assume a: "json_files st (local_path pn) = None
            \<and> extract_patent_info_with_llm (render e (clean_url url)) (clean_url url) = Some extracted"
  then show "(let patent_data = dict_set extracted ''publication_number'' (PStr pn);
                 with_hash = dict_set (format_patent patent_data pn) ''ipfs_hash''
                               (PStr (cid e (format_patent patent_data pn)));
                 uploaded = (\<not> index_fails e (dumps e patent_data)
                               \<and> http e (requests st) = Ok200
                               \<and> http e (requests st + 1) = Ok200)
             in local_writes (calls (process_url e url st)) =
                  local_writes (calls st) @ (local_path pn, 4, patent_data)
                    # (if uploaded then [(local_path pn, 2, with_hash)] else [])
              \<and> json_files (process_url e url st) =
                  (json_files st)(local_path pn \<mapsto>
                     (if uploaded then (2, with_hash) else (4, patent_data))))"
    using process_url_fresh [OF assms, of st e extracted] by (simp add: Let_def)
qed

lemma extract_env_example:
  "extract_patent_info_with_llm (render env_example (clean_url url_example)) (clean_url url_example)
     = Some record_example"
  by (simp add: render_example clean_url_example extract_example record_example_number)

lemma empty_store_fields:
  "json_files empty_store = Map.empty" "requests empty_store = 0" "calls empty_store = []"
  by (simp_all add: empty_store_def)

lemma env_example_fields:
  "cid env_example = enc_dict" "dumps env_example = enc_dict" "index_fails env_example t = False"
  "http env_example n = Ok200"
  by (simp_all add: env_example_def)

theorem local_record_written_then_replaced_witness:
  "search_patent (clean_url url_example) = Some ''US1''
   \<and> json_files empty_store (local_path ''US1'') = None
   \<and> extract_patent_info_with_llm (render env_example (clean_url url_example))
        (clean_url url_example) = Some record_example
   \<and> json_files (process_url env_example url_example empty_store) =
       [local_path ''US1'' \<mapsto>
          (2, dict_set formatted_example ''ipfs_hash'' (PStr (enc_dict formatted_example)))]
   \<and> json_files store_with_record (local_path ''US1'') \<noteq> None
   \<and> json_files (process_url env_example url_example store_with_record)
       = json_files store_with_record"
  using local_record_written_then_replaced [of url_example "''US1''" "[]" env_example empty_store
          record_example]
        local_record_written_then_replaced [of url_example "''US1''" "[]" env_example
          store_with_record record_example]
  by (simp add: search_clean_example extract_env_example empty_store_fields env_example_fields
        record_example_number format_example store_with_record_file Let_def)

theorem upload_rewrites_local_record_counterexample:
  "local_writes (calls (process_url env_example url_example empty_store)) =
     [(local_path ''US1'', 4, record_example),
      (local_path ''US1'', 2,
       dict_set formatted_example ''ipfs_hash'' (PStr (enc_dict formatted_example)))]
   \<and> json_files (process_url env_example url_example empty_store) (local_path ''US1'') =
       Some (2, dict_set formatted_example ''ipfs_hash'' (PStr (enc_dict formatted_example)))
   \<and> map_of record_example ''ipfs_hash'' = None
   \<and> map_of (dict_set formatted_example ''ipfs_hash'' (PStr (enc_dict formatted_example)))
        ''ipfs_hash'' = Some (PStr (enc_dict formatted_example))"
  using process_url_fresh [of url_example "''US1''" empty_store env_example record_example]
  by (simp add: search_clean_example extract_env_example empty_store_fields env_example_fields
        record_example_number format_example map_of_dict_set)
     (simp add: record_example_def)


end
